theory Spec2Isabelle
  imports Complex_Main "HOL-Library.Word"
begin

section \<open>The customized costmap and the transition buffer of the neuro local planner wrapper\<close>

text \<open>
  The development embeds \<^verbatim>\<open>neuro_local_planner_wrapper.cpp\<close>: the laser scan callback
  \<^verbatim>\<open>getLaserScanPoints\<close> with the two initialisation functions it calls, and \<^verbatim>\<open>setPlan\<close>.

  Conventions of the embedding.
  \<^item> A finite \<^verbatim>\<open>double\<close> is the \<open>real\<close> it denotes. The operations of lines 401, 402, 442,
    443 and 457 on doubles are the exact operations followed by \<open>to_double\<close>, the rounding
    of IEEE 754 binary64 to nearest, ties to even; a result that is not finite (a zero
    divisor, an overflow) is \<open>None\<close>. Such a value stays not finite through the rest of
    these expressions, and converting it to an integer type, which C++ leaves undefined,
    is the fault \<open>Undefined_conversion\<close>. So is the conversion of a value outside the
    target type.
  \<^item> The projection of a sample (lines 382 to 394) goes through \<^verbatim>\<open>cos\<close> and \<^verbatim>\<open>sin\<close> of the
    math library, whose rounding the language does not fix; it is kept in exact reals.
    The scenarios below use it at angle 0 and yaw 0 only, where every operation is exact.
  \<^item> \<^verbatim>\<open>uint32\<close> fields (the width and height of a map, sequence numbers) are \<open>32 word\<close>,
    so products such as \<^verbatim>\<open>width*height\<close> wrap as they do in the source.
  \<^item> \<^verbatim>\<open>int8_t\<close> cells are held as \<open>int\<close>: every stored value is a literal (70, 100) or passes
    the range check of \<open>to_int8\<close>.
  \<^item> \<^verbatim>\<open>std::vector::at\<close> out of range is the fault \<open>Out_of_range\<close> (the exception
    \<^verbatim>\<open>std::out_of_range\<close>); \<^verbatim>\<open>operator[]\<close> out of range is the fault \<open>Buffer_overrun\<close>.
  \<^item> The costmap, the transform listener and the clock are outside this file of the
    repository: what their calls return is a parameter, collected in \<open>environment\<close>.
\<close>

subsection \<open>Faults and numeric conversions\<close>

datatype fault = Out_of_range | Undefined_conversion | Buffer_overrun

text \<open>\<^verbatim>\<open>round\<close> of \<^verbatim>\<open>math.h\<close>: to the nearest integer, halfway cases away from zero.\<close>

definition c_round :: "real \<Rightarrow> int" where
  "c_round v = (if 0 \<le> v then \<lfloor>v + 1 / 2\<rfloor> else - \<lfloor>- v + 1 / 2\<rfloor>)"

text \<open>
  Rounding of a real to binary64. \<open>round_half_even\<close> rounds to the nearest integer, ties
  to the even one. The binade of a positive \<open>x\<close> is the exponent \<open>e\<close> with
  \<open>2^e \<le> x < 2^(e+1)\<close>, not below the exponent -1022 of the smallest normal number; the
  doubles of that binade are the multiples of \<open>ulp x = 2^(e - 52)\<close>.
\<close>

definition round_half_even :: "real \<Rightarrow> int" where
  "round_half_even r =
     (if r - of_int \<lfloor>r\<rfloor> < 1 / 2 then \<lfloor>r\<rfloor>
      else if 1 / 2 < r - of_int \<lfloor>r\<rfloor> then \<lfloor>r\<rfloor> + 1
      else if even \<lfloor>r\<rfloor> then \<lfloor>r\<rfloor> else \<lfloor>r\<rfloor> + 1)"

definition binade :: "real \<Rightarrow> int" where
  "binade x = max \<lfloor>log 2 x\<rfloor> (- 1022)"

definition ulp :: "real \<Rightarrow> real" where
  "ulp x = 2 powi (binade x - 52)"

definition round_magnitude :: "real \<Rightarrow> real" where
  "round_magnitude x = of_int (round_half_even (x / ulp x)) * ulp x"

definition round_double :: "real \<Rightarrow> real" where
  "round_double x =
     (if x = 0 then 0 else if 0 < x then round_magnitude x else - round_magnitude (- x))"

text \<open>
  The double that an exact result is rounded to, \<open>None\<close> when the rounded magnitude
  reaches \<open>2^1024\<close> (the result is an infinity).
\<close>

definition to_double :: "real \<Rightarrow> real option" where
  "to_double v = (if \<bar>round_double v\<bar> < 2 ^ 1024 then Some (round_double v) else None)"

text \<open>
  Subtraction, multiplication and division of finite doubles. A zero divisor gives NaN
  or an infinity.
\<close>

definition dsub :: "real \<Rightarrow> real \<Rightarrow> real option" where
  "dsub a b = to_double (a - b)"

definition dmul :: "real \<Rightarrow> real \<Rightarrow> real option" where
  "dmul a b = to_double (a * b)"

definition ddiv :: "real \<Rightarrow> real \<Rightarrow> real option" where
  "ddiv a b = (if b = 0 then None else to_double (a / b))"

text \<open>
  Conversion of a double with an integral value (the result of \<^verbatim>\<open>round\<close>, or 50 minus it) to
  \<^verbatim>\<open>int\<close> (32 bits) and to \<^verbatim>\<open>int8_t\<close>.
\<close>

definition to_int32 :: "int \<Rightarrow> fault + int" where
  "to_int32 v = (if - (2 ^ 31) \<le> v \<and> v < 2 ^ 31 then Inr v else Inl Undefined_conversion)"

definition to_int8 :: "int \<Rightarrow> fault + int" where
  "to_int8 v = (if - 128 \<le> v \<and> v \<le> 127 then Inr v else Inl Undefined_conversion)"

text \<open>\<^verbatim>\<open>v.at(i)\<close> and \<^verbatim>\<open>v[i] = c\<close> on a vector.\<close>

definition vector_at :: "'a list \<Rightarrow> nat \<Rightarrow> fault + 'a" where
  "vector_at v i = (if i < length v then Inr (v ! i) else Inl Out_of_range)"

definition vector_store :: "'a list \<Rightarrow> nat \<Rightarrow> 'a \<Rightarrow> fault + 'a list" where
  "vector_store v i c = (if i < length v then Inr (v[i := c]) else Inl Buffer_overrun)"

subsection \<open>Messages\<close>

text \<open>
  \<^verbatim>\<open>nav_msgs::OccupancyGrid\<close>, flattened. The fields the source sets once to constants and
  never reads (\<^verbatim>\<open>origin.position.z\<close>, \<^verbatim>\<open>origin.orientation\<close>) are left out.
\<close>

record occupancy_grid =
  header_frame_id :: string
  header_stamp :: nat
  header_seq :: "32 word"
  info_width :: "32 word"
  info_height :: "32 word"
  info_resolution :: real
  info_origin_x :: real
  info_origin_y :: real
  data :: "int list"

text \<open>
  \<^verbatim>\<open>neuro_local_planner_wrapper::Transition\<close>. Its declaration is generated from a message
  file that is not part of the source; \<open>width\<close>, \<open>height\<close> and \<open>depth\<close> are taken as
  \<^verbatim>\<open>uint32\<close>, the type of the map fields they are copied from.
\<close>

record transition =
  tr_frame_id :: string
  tr_stamp :: nat
  tr_seq :: "32 word"
  tr_width :: "32 word"
  tr_height :: "32 word"
  tr_depth :: "32 word"
  state_representation :: "int list"

record pose_stamped =
  pose_frame_id :: string
  pose_stamp :: nat
  position_x :: real
  position_y :: real

record laser_scan =
  scan_frame_id :: string
  scan_stamp :: nat
  angle_min :: real
  angle_increment :: real
  range_min :: real
  range_max :: real
  ranges :: "real list"

subsection \<open>External collaborators\<close>

text \<open>The getters of \<^verbatim>\<open>costmap_2d::Costmap2D\<close> the source calls.\<close>

record costmap2d =
  getSizeInCellsX :: "32 word"
  getSizeInCellsY :: "32 word"
  getResolution :: real
  getSizeInMetersX :: real
  getSizeInMetersY :: real

text \<open>
  A \<^verbatim>\<open>tf::StampedTransform\<close> as far as the source reads it: the origin's x and y and the
  yaw of the basis.
\<close>

record stamped_transform =
  origin_x :: real
  origin_y :: real
  yaw :: real

text \<open>
  The transform listener. \<open>lookupTransform target source\<close> is the latest available
  transform (\<^verbatim>\<open>ros::Time(0)\<close>), \<open>None\<close> when the call throws. \<open>transformPose target p\<close> is
  the position of the transformed pose, \<open>None\<close> when the call throws; the output argument
  is then not assigned. The result of \<^verbatim>\<open>waitForTransform\<close> is discarded by the source.
\<close>

record transform_listener =
  lookupTransform :: "string \<Rightarrow> string \<Rightarrow> stamped_transform option"
  transformPose :: "string \<Rightarrow> pose_stamped \<Rightarrow> (real \<times> real) option"

text \<open>
  \<open>unassigned_transform\<close> is the content of the default-constructed
  \<^verbatim>\<open>tf::StampedTransform\<close>, which the source reads when the lookup has thrown;
  \<open>tc_setPlan\<close> is the \<^verbatim>\<open>setPlan\<close> of the loaded planner plugin.
\<close>

record environment =
  costmap :: costmap2d
  tf :: transform_listener
  time_now :: nat
  unassigned_transform :: stamped_transform
  tc_setPlan :: "pose_stamped list \<Rightarrow> bool"

subsection \<open>The planner object\<close>

text \<open>The members of the class, named as in the source without the trailing underscore.\<close>

record planner =
  initialized :: bool
  existing_plugin :: bool
  is_customized_costmap_initialized :: bool
  customized_costmap :: occupancy_grid
  transition_msg :: transition
  global_plan :: "pose_stamped list"
  goal :: "real \<times> real"

text \<open>A value-initialised message, as the constructors of the generated classes give it.\<close>

definition empty_grid :: occupancy_grid where
  "empty_grid = \<lparr>header_frame_id = [], header_stamp = 0, header_seq = 0, info_width = 0,
     info_height = 0, info_resolution = 0, info_origin_x = 0, info_origin_y = 0, data = []\<rparr>"

definition empty_transition :: transition where
  "empty_transition = \<lparr>tr_frame_id = [], tr_stamp = 0, tr_seq = 0, tr_width = 0, tr_height = 0,
     tr_depth = 0, state_representation = []\<rparr>"

text \<open>
  The constructor sets \<open>initialized\<close> to false. The two other flags are first assigned
  by \<open>initialize\<close>, before any use; they are given that value here.
\<close>

definition constructed :: planner where
  "constructed = \<lparr>initialized = False, existing_plugin = False,
     is_customized_costmap_initialized = False, customized_costmap = empty_grid,
     transition_msg = empty_transition, global_plan = [], goal = (0, 0)\<rparr>"

text \<open>\<^verbatim>\<open>initialize\<close>, without the publishers and subscribers it registers.\<close>

definition initialize :: "planner \<Rightarrow> planner" where
  "initialize s =
     (if \<not> initialized s
      then s\<lparr>is_customized_costmap_initialized := False, existing_plugin := False,
             initialized := True\<rparr>
      else s)"

subsection \<open>\<^verbatim>\<open>setPlan\<close>\<close>

text \<open>
  The index \<^verbatim>\<open>orig_global_plan.size() - 1\<close> is computed in \<^verbatim>\<open>size_t\<close> (64 bits) and wraps
  for an empty plan.
\<close>

definition setPlan :: "environment \<Rightarrow> planner \<Rightarrow> pose_stamped list \<Rightarrow> fault + (planner \<times> bool)" where
  "setPlan env s orig_global_plan =
     (if \<not> initialized s then Inr (s, False)
      else
        let s1 = s\<lparr>global_plan := orig_global_plan\<rparr>;
            last_index = (length orig_global_plan + 2 ^ 64 - 1) mod 2 ^ 64
        in case vector_at orig_global_plan last_index of
             Inl e \<Rightarrow> Inl e
           | Inr p \<Rightarrow>
               let s2 = s1\<lparr>goal := (position_x p, position_y p)\<rparr>
               in if existing_plugin s2
                  then (if \<not> tc_setPlan env orig_global_plan then Inr (s2, False)
                        else Inr (s2, True))
                  else Inr (s2, True))"

subsection \<open>Initialising and clearing the customized costmap\<close>

definition initializeTransitionMsg :: "planner \<Rightarrow> planner" where
  "initializeTransitionMsg s =
     s\<lparr>transition_msg := (transition_msg s)
         \<lparr>tr_width := info_width (customized_costmap s),
          tr_height := info_height (customized_costmap s),
          tr_depth := 4,
          tr_seq := 0\<rparr>\<rparr>"

definition initializeCustomizedCostmap :: "environment \<Rightarrow> planner \<Rightarrow> planner" where
  "initializeCustomizedCostmap env s =
     (let w = getSizeInCellsX (costmap env);
          h = getSizeInCellsY (costmap env);
          g = \<lparr>header_frame_id = ''/base_footprint'',
               header_stamp = time_now env,
               header_seq = 0,
               info_width = w,
               info_height = h,
               info_resolution = getResolution (costmap env),
               info_origin_x = - getSizeInMetersX (costmap env) / 2,
               info_origin_y = - getSizeInMetersY (costmap env) / 2,
               data = replicate (unat (w * h)) 70\<rparr>
      in initializeTransitionMsg (s\<lparr>customized_costmap := g\<rparr>))"

text \<open>The \<^verbatim>\<open>else\<close> branch of step 1: every cell of a new buffer of \<^verbatim>\<open>width*height\<close> cells is 70.\<close>

definition clear_costmap :: "occupancy_grid \<Rightarrow> occupancy_grid" where
  "clear_costmap g = g\<lparr>data := replicate (unat (info_width g * info_height g)) 70\<rparr>"

text \<open>Step 1 of \<^verbatim>\<open>getLaserScanPoints\<close>.\<close>

definition clear_or_initialize :: "environment \<Rightarrow> planner \<Rightarrow> planner" where
  "clear_or_initialize env s =
     (if \<not> is_customized_costmap_initialized s
      then (initializeCustomizedCostmap env s)\<lparr>is_customized_costmap_initialized := True\<rparr>
      else s\<lparr>customized_costmap := clear_costmap (customized_costmap s)\<rparr>)"

subsection \<open>Step 2: the laser scan points\<close>

text \<open>
  Lines 401 and 402: the costmap coordinates of a point given in the robot base frame.
  Each coordinate is \<^verbatim>\<open>round(((p - origin)/meters)*cells - 0.5)\<close>, the four operations done
  on doubles in this order, converted to \<^verbatim>\<open>int\<close>.
\<close>

definition scan_costmap_coordinates ::
  "costmap2d \<Rightarrow> occupancy_grid \<Rightarrow> real \<Rightarrow> real \<Rightarrow> fault + (int \<times> int)" where
  "scan_costmap_coordinates cm g x_position_robot_base_frame y_position_robot_base_frame =
     (case Option.bind (dsub x_position_robot_base_frame (info_origin_x g)) (\<lambda>difference.
           Option.bind (ddiv difference (getSizeInMetersX cm)) (\<lambda>quotient.
           Option.bind (dmul quotient (real (unat (info_width g)))) (\<lambda>product.
             dsub product (1 / 2)))) of
        None \<Rightarrow> Inl Undefined_conversion
      | Some vx \<Rightarrow>
          (case to_int32 (c_round vx) of
             Inl e \<Rightarrow> Inl e
           | Inr x \<Rightarrow>
               (case Option.bind (dsub y_position_robot_base_frame (info_origin_y g)) (\<lambda>difference.
                     Option.bind (ddiv difference (getSizeInMetersY cm)) (\<lambda>quotient.
                     Option.bind (dmul quotient (real (unat (info_height g)))) (\<lambda>product.
                       dsub product (1 / 2)))) of
                  None \<Rightarrow> Inl Undefined_conversion
                | Some vy \<Rightarrow>
                    (case to_int32 (c_round vy) of
                       Inl e \<Rightarrow> Inl e
                     | Inr y \<Rightarrow> Inr (x, y)))))"

text \<open>
  Lines 382 to 394: the position of the sample \<open>i\<close> of range \<open>r\<close> in the robot base frame,
  the translation of the transform applied before its rotation.
\<close>

definition scan_point_robot_base_frame ::
  "stamped_transform \<Rightarrow> laser_scan \<Rightarrow> nat \<Rightarrow> real \<Rightarrow> real \<times> real" where
  "scan_point_robot_base_frame t ls i r =
     (let x_position_laser_scan_frame = r * cos (angle_min ls + real i * angle_increment ls);
          y_position_laser_scan_frame = r * sin (angle_min ls + real i * angle_increment ls);
          x_temp = x_position_laser_scan_frame + origin_x t;
          y_temp = y_position_laser_scan_frame + origin_y t
      in (cos (yaw t) * x_temp - sin (yaw t) * y_temp,
          sin (yaw t) * x_temp + cos (yaw t) * y_temp))"

text \<open>Lines 382 to 402: the costmap coordinates of the sample.\<close>

definition scan_point_cell ::
  "costmap2d \<Rightarrow> occupancy_grid \<Rightarrow> stamped_transform \<Rightarrow> laser_scan \<Rightarrow> nat \<Rightarrow> real
     \<Rightarrow> fault + (int \<times> int)" where
  "scan_point_cell cm g t ls i r =
     scan_costmap_coordinates cm g (fst (scan_point_robot_base_frame t ls i r))
       (snd (scan_point_robot_base_frame t ls i r))"

text \<open>
  The loop of lines 374 to 408 over the samples, \<open>i\<close> the index of the head of the list.
  The index \<^verbatim>\<open>x + y*width\<close> of line 405 is computed in \<^verbatim>\<open>uint32\<close>.
\<close>

fun add_laser_scan_points ::
  "costmap2d \<Rightarrow> stamped_transform \<Rightarrow> laser_scan \<Rightarrow> nat \<Rightarrow> real list \<Rightarrow> occupancy_grid
     \<Rightarrow> fault + occupancy_grid" where
  "add_laser_scan_points cm t ls i [] g = Inr g"
| "add_laser_scan_points cm t ls i (r # rs) g =
     (if r > range_min ls \<and> r < range_max ls
      then (case scan_point_cell cm g t ls i r of
              Inl e \<Rightarrow> Inl e
            | Inr (x, y) \<Rightarrow>
                if x \<ge> 0 \<and> y \<ge> 0 \<and> x < uint (info_width g) \<and> y < uint (info_height g)
                then (case vector_store (data g)
                             (unat (word_of_int x + word_of_int y * info_width g :: 32 word)) 100 of
                        Inl e \<Rightarrow> Inl e
                      | Inr d \<Rightarrow> add_laser_scan_points cm t ls (Suc i) rs (g\<lparr>data := d\<rparr>))
                else add_laser_scan_points cm t ls (Suc i) rs g)
      else add_laser_scan_points cm t ls (Suc i) rs g)"

subsection \<open>Step 3: the global plan\<close>

text \<open>
  Lines 442 and 443: the costmap coordinates of a pose given in the robot base frame, the
  same expression on doubles as in lines 401 and 402.
\<close>

definition plan_costmap_coordinates ::
  "costmap2d \<Rightarrow> occupancy_grid \<Rightarrow> real \<times> real \<Rightarrow> fault + (int \<times> int)" where
  "plan_costmap_coordinates cm g pose_robot_base_frame =
     (case Option.bind (dsub (fst pose_robot_base_frame) (info_origin_x g)) (\<lambda>difference.
           Option.bind (ddiv difference (getSizeInMetersX cm)) (\<lambda>quotient.
           Option.bind (dmul quotient (real (unat (info_width g)))) (\<lambda>product.
             dsub product (1 / 2)))) of
        None \<Rightarrow> Inl Undefined_conversion
      | Some vx \<Rightarrow>
          (case to_int32 (c_round vx) of
             Inl e \<Rightarrow> Inl e
           | Inr x \<Rightarrow>
               (case Option.bind (dsub (snd pose_robot_base_frame) (info_origin_y g)) (\<lambda>difference.
                     Option.bind (ddiv difference (getSizeInMetersY cm)) (\<lambda>quotient.
                     Option.bind (dmul quotient (real (unat (info_height g)))) (\<lambda>product.
                       dsub product (1 / 2)))) of
                  None \<Rightarrow> Inl Undefined_conversion
                | Some vy \<Rightarrow>
                    (case to_int32 (c_round vy) of
                       Inl e \<Rightarrow> Inl e
                     | Inr y \<Rightarrow> Inr (x, y)))))"

text \<open>
  The loop of lines 424 to 451. \<open>pose_robot_base_frame\<close> is declared before the loop: when
  \<^verbatim>\<open>transformPose\<close> throws, the handler only reports, and the lines after it read the value
  the variable had before (value-initialised at the start, position \<open>(0, 0)\<close>).
\<close>

fun plan_map_coordinates ::
  "environment \<Rightarrow> occupancy_grid \<Rightarrow> real \<times> real \<Rightarrow> pose_stamped list \<Rightarrow> (int \<times> int) list
     \<Rightarrow> fault + (int \<times> int) list" where
  "plan_map_coordinates env g pose_robot_base_frame [] global_plan_map_coordinates =
     Inr global_plan_map_coordinates"
| "plan_map_coordinates env g pose_robot_base_frame (p # ps) global_plan_map_coordinates =
     (let pose_fixed_frame = p\<lparr>pose_stamp := header_stamp g\<rparr>;
          pose_robot_base_frame' =
            (case transformPose (tf env) (header_frame_id g) pose_fixed_frame of
               None \<Rightarrow> pose_robot_base_frame
             | Some q \<Rightarrow> q)
      in case plan_costmap_coordinates (costmap env) g pose_robot_base_frame' of
           Inl e \<Rightarrow> Inl e
         | Inr (x, y) \<Rightarrow>
             if x \<ge> 0 \<and> y \<ge> 0 \<and> x < uint (info_width g) \<and> y < uint (info_height g)
             then plan_map_coordinates env g pose_robot_base_frame' ps
                    (global_plan_map_coordinates @ [(x, y)])
             else plan_map_coordinates env g pose_robot_base_frame' ps
                    global_plan_map_coordinates)"

text \<open>
  Line 457: the value \<^verbatim>\<open>50 - round((double)counter/(double)(total_plan_pixel_number-1)*50.0)\<close>,
  converted to \<^verbatim>\<open>int8_t\<close>. The two \<^verbatim>\<open>int\<close> operands are converted exactly; the quotient
  and the product are rounded. \<^verbatim>\<open>round\<close> is exact, and so is the subtraction from 50
  wherever its result is in the range of \<^verbatim>\<open>int8_t\<close>.
\<close>

definition plan_pixel_value :: "int \<Rightarrow> int \<Rightarrow> fault + int" where
  "plan_pixel_value counter total_plan_pixel_number =
     (case Option.bind (ddiv (of_int counter) (of_int (total_plan_pixel_number - 1))) (\<lambda>quotient.
             dmul quotient 50) of
        None \<Rightarrow> Inl Undefined_conversion
      | Some product \<Rightarrow> to_int8 (50 - c_round product))"

text \<open>
  The index \<^verbatim>\<open>x + y*width\<close> of line 457. The coordinates are stored as doubles, so it is
  computed without wrap-around.
\<close>

definition plan_pixel_index :: "occupancy_grid \<Rightarrow> int \<times> int \<Rightarrow> nat" where
  "plan_pixel_index g c = nat (fst c + snd c * uint (info_width g))"

text \<open>The loop of lines 455 to 459.\<close>

fun add_plan_pixels ::
  "int \<Rightarrow> int \<Rightarrow> (int \<times> int) list \<Rightarrow> occupancy_grid \<Rightarrow> fault + occupancy_grid" where
  "add_plan_pixels total_plan_pixel_number counter [] g = Inr g"
| "add_plan_pixels total_plan_pixel_number counter (c # cs) g =
     (case plan_pixel_value counter total_plan_pixel_number of
        Inl e \<Rightarrow> Inl e
      | Inr v \<Rightarrow>
          (case vector_store (data g) (plan_pixel_index g c) v of
             Inl e \<Rightarrow> Inl e
           | Inr d \<Rightarrow> add_plan_pixels total_plan_pixel_number (counter + 1) cs (g\<lparr>data := d\<rparr>)))"

subsection \<open>Step 5: the buffer of consecutive costmaps\<close>

text \<open>
  Lines 466 to 481: the new transition message and the message published, if any. The
  size of the buffer is compared with the \<^verbatim>\<open>uint32\<close> product before anything is added.
\<close>

definition buffer_costmap :: "transition \<Rightarrow> occupancy_grid \<Rightarrow> transition \<times> transition option" where
  "buffer_costmap tm g =
     (if length (state_representation tm) = unat (tr_width tm * tr_height tm * tr_depth tm)
      then (tm\<lparr>tr_stamp := header_stamp g, tr_frame_id := header_frame_id g,
               tr_seq := tr_seq tm + 1, state_representation := []\<rparr>,
            Some (tm\<lparr>tr_stamp := header_stamp g, tr_frame_id := header_frame_id g\<rparr>))
      else (tm\<lparr>state_representation := state_representation tm @ data g\<rparr>, None))"

text \<open>Successive calls, with the messages published on the way, oldest first.\<close>

fun buffer_costmaps :: "transition \<Rightarrow> occupancy_grid list \<Rightarrow> transition \<times> transition list" where
  "buffer_costmaps tm [] = (tm, [])"
| "buffer_costmaps tm (g # gs) =
     (case buffer_costmap tm g of
        (tm', None) \<Rightarrow> buffer_costmaps tm' gs
      | (tm', Some m) \<Rightarrow> (fst (buffer_costmaps tm' gs), m # snd (buffer_costmaps tm' gs)))"

subsection \<open>\<^verbatim>\<open>getLaserScanPoints\<close>\<close>

text \<open>
  Steps 2 to 5 on the planner whose costmap step 1 has reset. The result is the new
  planner, the costmap published in step 4 and the transition published in step 5.
\<close>

definition rasterize_and_publish ::
  "environment \<Rightarrow> planner \<Rightarrow> laser_scan \<Rightarrow> fault + (planner \<times> occupancy_grid \<times> transition option)" where
  "rasterize_and_publish env s ls =
     (let g1 = (customized_costmap s)\<lparr>header_stamp := scan_stamp ls\<rparr>;
          t = (case lookupTransform (tf env) (header_frame_id g1) (scan_frame_id ls) of
                 None \<Rightarrow> unassigned_transform env
               | Some t' \<Rightarrow> t')
      in case add_laser_scan_points (costmap env) t ls 0 (ranges ls) g1 of
           Inl e \<Rightarrow> Inl e
         | Inr g2 \<Rightarrow>
             (case plan_map_coordinates env g2 (0, 0) (global_plan s) [] of
                Inl e \<Rightarrow> Inl e
              | Inr cs \<Rightarrow>
                  (case add_plan_pixels (int (length cs)) 0 cs g2 of
                     Inl e \<Rightarrow> Inl e
                   | Inr g3 \<Rightarrow>
                       let g4 = g3\<lparr>header_seq := header_seq g3 + 1\<rparr>;
                           b = buffer_costmap (transition_msg s) g4
                       in Inr (s\<lparr>customized_costmap := g4, transition_msg := fst b\<rparr>,
                               g3, snd b))))"

definition getLaserScanPoints ::
  "environment \<Rightarrow> planner \<Rightarrow> laser_scan \<Rightarrow> fault + (planner \<times> occupancy_grid \<times> transition option)" where
  "getLaserScanPoints env s ls = rasterize_and_publish env (clear_or_initialize env s) ls"

subsection \<open>Observing a run\<close>

text \<open>The costmap published by a run, and the value of its cell \<open>(x, y)\<close>.\<close>

definition published_costmap ::
  "fault + (planner \<times> occupancy_grid \<times> transition option) \<Rightarrow> occupancy_grid option" where
  "published_costmap r = (case r of Inl e \<Rightarrow> None | Inr (s, g, m) \<Rightarrow> Some g)"

definition cell_value :: "occupancy_grid \<Rightarrow> int \<Rightarrow> int \<Rightarrow> int option" where
  "cell_value g x y =
     (if 0 \<le> x \<and> 0 \<le> y \<and> x < uint (info_width g) \<and> y < uint (info_height g)
         \<and> plan_pixel_index g (x, y) < length (data g)
      then Some (data g ! plan_pixel_index g (x, y))
      else None)"

definition published_cell ::
  "fault + (planner \<times> occupancy_grid \<times> transition option) \<Rightarrow> int \<Rightarrow> int \<Rightarrow> int option" where
  "published_cell r x y = (case published_costmap r of None \<Rightarrow> None | Some g \<Rightarrow> cell_value g x y)"

text \<open>The value of the cell \<open>c\<close> after a loop that has rasterized into a costmap.\<close>

definition rasterized_cell :: "fault + occupancy_grid \<Rightarrow> int \<times> int \<Rightarrow> int option" where
  "rasterized_cell r c = (case r of Inl e \<Rightarrow> None | Inr g \<Rightarrow> cell_value g (fst c) (snd c))"

subsection \<open>A test bench\<close>

text \<open>
  The costmap of the scenarios: 80 by 80 cells of 0.05 m, 4 m by 4 m, so that the origin
  of the customized costmap is \<open>(-2, -2)\<close>.
\<close>

definition bench_costmap :: costmap2d where
  "bench_costmap = \<lparr>getSizeInCellsX = 80, getSizeInCellsY = 80, getResolution = 1 / 20,
     getSizeInMetersX = 4, getSizeInMetersY = 4\<rparr>"

definition identity_transform :: stamped_transform where
  "identity_transform = \<lparr>origin_x = 0, origin_y = 0, yaw = 0\<rparr>"

text \<open>
  A listener that knows the identity transform from the laser and from the frame \<open>map\<close>
  to the robot base, and throws for a pose of any other frame.
\<close>

definition bench_listener :: transform_listener where
  "bench_listener =
     \<lparr>lookupTransform = (\<lambda>target source. Some identity_transform),
      transformPose = (\<lambda>target p.
         if pose_frame_id p = ''map'' then Some (position_x p, position_y p) else None)\<rparr>"

definition bench :: environment where
  "bench = \<lparr>costmap = bench_costmap, tf = bench_listener, time_now = 0,
     unassigned_transform = identity_transform, tc_setPlan = (\<lambda>plan. True)\<rparr>"

text \<open>A scan of one sample of range \<open>r\<close> at angle 0, valid ranges between 0.1 and 10.\<close>

definition single_sample :: "real \<Rightarrow> laser_scan" where
  "single_sample r = \<lparr>scan_frame_id = ''base_laser_link'', scan_stamp = 1, angle_min = 0,
     angle_increment = 0, range_min = 1 / 10, range_max = 10, ranges = [r]\<rparr>"

definition pose_at :: "string \<Rightarrow> real \<Rightarrow> real \<Rightarrow> pose_stamped" where
  "pose_at frame x y = \<lparr>pose_frame_id = frame, pose_stamp = 0, position_x = x, position_y = y\<rparr>"

text \<open>The initialised planner after \<open>setPlan\<close> has accepted a plan that is not empty.\<close>

definition following :: "pose_stamped list \<Rightarrow> planner" where
  "following plan =
     (initialize constructed)\<lparr>global_plan := plan,
        goal := (position_x (last plan), position_y (last plan))\<rparr>"

text \<open>The customized costmap of the bench after step 1 and the update of the stamp.\<close>

definition bench_grid :: occupancy_grid where
  "bench_grid = \<lparr>header_frame_id = ''/base_footprint'', header_stamp = 1, header_seq = 0,
     info_width = 80, info_height = 80, info_resolution = 1 / 20, info_origin_x = - 2,
     info_origin_y = - 2, data = replicate 6400 70\<rparr>"

text \<open>A transition message for maps of two cells, and three such maps.\<close>

definition small_transition :: transition where
  "small_transition = \<lparr>tr_frame_id = [], tr_stamp = 0, tr_seq = 0, tr_width = 2, tr_height = 1,
     tr_depth = 4, state_representation = []\<rparr>"

definition small_grid :: "int list \<Rightarrow> occupancy_grid" where
  "small_grid d = \<lparr>header_frame_id = ''/base_footprint'', header_stamp = 1, header_seq = 0,
     info_width = 2, info_height = 1, info_resolution = 1 / 20, info_origin_x = - 1 / 20,
     info_origin_y = - 1 / 40, data = d\<rparr>"

subsection \<open>The mapping of the specification\<close>

text \<open>
  The cell of a point of the grid frame in the words of the specification:
  \<open>cellX = round(((x - origin.x) / widthMeters) * width - 0.5)\<close>, likewise \<open>cellY\<close>, with
  this rounding function and this order of the operations, each of them an operation on
  doubles; \<open>None\<close> when an operation has no finite result. The result is invalid when an
  index falls outside \<open>[0, width)\<close> or \<open>[0, height)\<close>.
\<close>

definition spec_cell :: "real \<Rightarrow> real \<Rightarrow> real \<Rightarrow> real \<Rightarrow> int option" where
  "spec_cell p origin meters cells =
     map_option c_round
       (Option.bind (dsub p origin) (\<lambda>difference.
        Option.bind (ddiv difference meters) (\<lambda>quotient.
        Option.bind (dmul quotient cells) (\<lambda>product.
          dsub product (1 / 2)))))"

definition spec_cellX :: "costmap2d \<Rightarrow> occupancy_grid \<Rightarrow> real \<Rightarrow> int option" where
  "spec_cellX cm g x =
     spec_cell x (info_origin_x g) (getSizeInMetersX cm) (real (unat (info_width g)))"

definition spec_cellY :: "costmap2d \<Rightarrow> occupancy_grid \<Rightarrow> real \<Rightarrow> int option" where
  "spec_cellY cm g y =
     spec_cell y (info_origin_y g) (getSizeInMetersY cm) (real (unat (info_height g)))"

definition spec_invalid :: "occupancy_grid \<Rightarrow> int \<Rightarrow> int \<Rightarrow> bool" where
  "spec_invalid g cellX cellY =
     (cellX < 0 \<or> uint (info_width g) \<le> cellX \<or> cellY < 0 \<or> uint (info_height g) \<le> cellY)"

text \<open>
  The value of the \<open>i\<close>-th of \<open>N\<close> valid cells of the path, \<open>50 - round(i / (N-1) * 50)\<close>, the
  quotient and the product rounded to doubles.
\<close>

definition spec_path_value :: "int \<Rightarrow> int \<Rightarrow> int" where
  "spec_path_value i N =
     50 - c_round (round_double (round_double (real_of_int i / real_of_int (N - 1)) * 50))"

section \<open>Properties\<close>

subsection \<open>Rounding to double\<close>

text \<open>
  The rounding is monotone, and it is the identity on the integers below \<open>2^53\<close> in
  magnitude scaled by a power of two that is not below \<open>2^-1074\<close>.
\<close>

lemma round_half_even_of_int: "round_half_even (of_int n) = n"
  by (simp add: round_half_even_def)

lemma round_half_even_ge_floor: "\<lfloor>r\<rfloor> \<le> round_half_even r"
  by (simp add: round_half_even_def)

lemma round_half_even_le_floor: "round_half_even r \<le> \<lfloor>r\<rfloor> + 1"
  by (simp add: round_half_even_def)

lemma round_half_even_mono:
  assumes "r \<le> s"
  shows "round_half_even r \<le> round_half_even s"
proof (cases "\<lfloor>r\<rfloor> = \<lfloor>s\<rfloor>")
  case True
  from assms have "r - of_int \<lfloor>r\<rfloor> \<le> s - of_int \<lfloor>r\<rfloor>" by simp
  with True show ?thesis by (auto simp: round_half_even_def)
next
  case False
  with assms have "\<lfloor>r\<rfloor> < \<lfloor>s\<rfloor>" using floor_mono [OF assms] by linarith
  then have "round_half_even r \<le> \<lfloor>s\<rfloor>"
    using round_half_even_le_floor [of r] by linarith
  then show ?thesis using round_half_even_ge_floor [of s] by linarith
qed

lemma round_half_even_ge: "of_int a \<le> r \<Longrightarrow> a \<le> round_half_even r"
  using round_half_even_mono [of "of_int a" r] by (simp add: round_half_even_of_int)

lemma round_half_even_le: "r \<le> of_int b \<Longrightarrow> round_half_even r \<le> b"
  using round_half_even_mono [of r "of_int b"] by (simp add: round_half_even_of_int)

lemma two_powr_int: "(2 :: real) powr real_of_int k = 2 powi k"
  by (rule powr_real_of_int') simp_all

lemma binade_ge: "- 1022 \<le> binade x"
  by (simp add: binade_def)

lemma binade_upper:
  assumes "0 < x"
  shows "x < 2 powi (binade x + 1)"
proof -
  have "log 2 x < real_of_int (\<lfloor>log 2 x\<rfloor> + 1)" by linarith
  then have "x < 2 powr real_of_int (\<lfloor>log 2 x\<rfloor> + 1)"
    using assms by (simp only: log_less_iff [of 2 x])
  then have "x < 2 powi (\<lfloor>log 2 x\<rfloor> + 1)" by (simp only: two_powr_int)
  also have "\<dots> \<le> 2 powi (binade x + 1)"
    by (intro power_int_increasing) (simp_all add: binade_def)
  finally show ?thesis .
qed

lemma binade_lower:
  assumes "2 powi (- 1022) \<le> x"
  shows "2 powi (binade x) \<le> x"
proof -
  define m :: int where "m = - 1022"
  have a: "2 powi m \<le> x" using assms by (simp only: m_def)
  have bdef: "binade x = max \<lfloor>log 2 x\<rfloor> m" by (simp only: binade_def m_def)
  have pos: "0 < x" using a zero_less_power_int [of "2 :: real" m] by linarith
  have "2 powr real_of_int m \<le> x" using a by (simp only: two_powr_int)
  then have "real_of_int m \<le> log 2 x"
    using pos le_log_iff [of 2 x "real_of_int m"] by simp
  then have "m \<le> \<lfloor>log 2 x\<rfloor>" by (simp add: le_floor_iff)
  then have b: "binade x = \<lfloor>log 2 x\<rfloor>" by (simp add: bdef)
  have "real_of_int \<lfloor>log 2 x\<rfloor> \<le> log 2 x" by simp
  then have "2 powr real_of_int \<lfloor>log 2 x\<rfloor> \<le> x"
    using pos le_log_iff [of 2 x "real_of_int \<lfloor>log 2 x\<rfloor>"] by simp
  then show ?thesis by (simp only: b two_powr_int)
qed

lemma binade_mono:
  assumes "0 < x" and "x \<le> y"
  shows "binade x \<le> binade y"
proof -
  have "log 2 x \<le> log 2 y" using assms by (intro log_mono) simp_all
  then have "\<lfloor>log 2 x\<rfloor> \<le> \<lfloor>log 2 y\<rfloor>" by (rule floor_mono)
  then show ?thesis by (simp add: binade_def)
qed

lemma binade_eq:
  assumes "2 powi e \<le> x" and "x < 2 powi (e + 1)" and "- 1022 \<le> e"
  shows "binade x = e"
proof -
  have pos: "0 < x" using assms(1) zero_less_power_int [of "2 :: real" e] by linarith
  have lo: "2 powr real_of_int e \<le> x" using assms(1) by (simp only: two_powr_int)
  have "x < 2 powr real_of_int (e + 1)" using assms(2) by (simp only: two_powr_int)
  then have hi: "x < 2 powr (real_of_int e + 1)" by simp
  have "\<lfloor>log 2 x\<rfloor> = e"
    using lo hi pos floor_log_eq_powr_iff [of x 2 e] by simp
  with assms(3) show ?thesis by (simp add: binade_def)
qed

lemma binade_lower_unclamped:
  assumes "0 < x" and "- 1022 < binade x"
  shows "2 powi (binade x) \<le> x"
proof -
  from assms(2) have b: "binade x = \<lfloor>log 2 x\<rfloor>"
    by (simp add: binade_def max_def split: if_splits)
  have "real_of_int \<lfloor>log 2 x\<rfloor> \<le> log 2 x" by simp
  then have "2 powr real_of_int \<lfloor>log 2 x\<rfloor> \<le> x"
    using assms(1) le_log_iff [of 2 x "real_of_int \<lfloor>log 2 x\<rfloor>"] by simp
  then show ?thesis by (simp only: b two_powr_int)
qed

lemma ulp_pos: "0 < ulp x"
  by (simp add: ulp_def)

lemma binade_top: "2 powi (binade x + 1) = of_int (2 ^ 53) * ulp x"
proof -
  have e: "(2 :: real) powi (53 + (binade x - 52)) = 2 powi 53 * 2 powi (binade x - 52)"
    by (rule power_int_add) simp
  have "53 + (binade x - 52) = binade x + 1" by simp
  with e have "(2 :: real) powi (binade x + 1) = 2 powi 53 * 2 powi (binade x - 52)"
    by (simp only:)
  also have "\<dots> = of_int (2 ^ 53) * ulp x" by (simp add: ulp_def)
  finally show ?thesis .
qed

lemma binade_bottom: "2 powi (binade x) = of_int (2 ^ 52) * ulp x"
proof -
  have "binade x = 52 + (binade x - 52)" by simp
  then have "(2 :: real) powi (binade x) = 2 powi 52 * 2 powi (binade x - 52)"
    using power_int_add [of "2 :: real" 52 "binade x - 52"] by simp
  then show ?thesis by (simp add: ulp_def)
qed

lemma round_magnitude_upper:
  assumes "0 < x"
  shows "round_magnitude x \<le> 2 powi (binade x + 1)"
proof -
  have "x < of_int (2 ^ 53) * ulp x"
    using binade_upper [OF assms] by (simp only: binade_top)
  then have "x / ulp x \<le> of_int (2 ^ 53)"
    using ulp_pos [of x] by (simp add: divide_le_eq)
  then have "round_half_even (x / ulp x) \<le> 2 ^ 53" by (rule round_half_even_le)
  then have "real_of_int (round_half_even (x / ulp x)) \<le> real_of_int (2 ^ 53)"
    by (simp only: of_int_le_iff)
  then have "real_of_int (round_half_even (x / ulp x)) * ulp x \<le> real_of_int (2 ^ 53) * ulp x"
    using ulp_pos [of x] by (intro mult_right_mono) simp_all
  then show ?thesis by (simp only: round_magnitude_def binade_top)
qed

lemma round_magnitude_lower:
  assumes "2 powi (binade x) \<le> x"
  shows "2 powi (binade x) \<le> round_magnitude x"
proof -
  have "of_int (2 ^ 52) * ulp x \<le> x"
    using assms by (simp only: binade_bottom)
  then have "of_int (2 ^ 52) \<le> x / ulp x"
    using ulp_pos [of x] by (simp add: le_divide_eq)
  then have "2 ^ 52 \<le> round_half_even (x / ulp x)" by (rule round_half_even_ge)
  then have "real_of_int (2 ^ 52) \<le> real_of_int (round_half_even (x / ulp x))"
    by (simp only: of_int_le_iff)
  then have "real_of_int (2 ^ 52) * ulp x \<le> real_of_int (round_half_even (x / ulp x)) * ulp x"
    using ulp_pos [of x] by (intro mult_right_mono) simp_all
  then show ?thesis by (simp only: round_magnitude_def binade_bottom)
qed

lemma round_magnitude_nonneg:
  assumes "0 \<le> x"
  shows "0 \<le> round_magnitude x"
proof -
  have "of_int 0 \<le> x / ulp x" using assms ulp_pos [of x] by simp
  then have "0 \<le> round_half_even (x / ulp x)" by (rule round_half_even_ge)
  then show ?thesis using ulp_pos [of x] by (simp add: round_magnitude_def)
qed

lemma round_magnitude_mono:
  assumes "0 < x" and "x \<le> y"
  shows "round_magnitude x \<le> round_magnitude y"
proof (cases "binade x = binade y")
  case True
  then have u: "ulp y = ulp x" by (simp add: ulp_def)
  have "x / ulp x \<le> y / ulp x"
    using assms(2) ulp_pos [of x] by (simp add: divide_right_mono)
  then have "round_half_even (x / ulp x) \<le> round_half_even (y / ulp x)"
    by (rule round_half_even_mono)
  then have "real_of_int (round_half_even (x / ulp x)) * ulp x
      \<le> real_of_int (round_half_even (y / ulp x)) * ulp x"
    using ulp_pos [of x] by (intro mult_right_mono) simp_all
  then show ?thesis by (simp only: round_magnitude_def u)
next
  case False
  have pos: "0 < y" using assms by linarith
  from False binade_mono [OF assms] have less: "binade x < binade y" by linarith
  then have "- 1022 < binade y" using binade_ge [of x] by linarith
  then have "2 powi (binade y) \<le> y" using pos by (intro binade_lower_unclamped)
  then have low: "2 powi (binade y) \<le> round_magnitude y" by (rule round_magnitude_lower)
  have "round_magnitude x \<le> 2 powi (binade x + 1)"
    using assms(1) by (rule round_magnitude_upper)
  also have "\<dots> \<le> 2 powi (binade y)"
    using less by (intro power_int_increasing) simp_all
  finally show ?thesis using low by linarith
qed

lemma round_magnitude_zero: "round_magnitude 0 = 0"
  by (simp add: round_magnitude_def round_half_even_def)

lemma round_double_mono:
  assumes "x \<le> y"
  shows "round_double x \<le> round_double y"
proof -
  consider "0 < x" | "x = 0" | "x < 0" "y < 0" | "x < 0" "0 \<le> y" by linarith
  then show ?thesis
  proof cases
    case 1
    then have "0 < y" using assms by linarith
    with 1 round_magnitude_mono [OF 1 assms] show ?thesis by (simp add: round_double_def)
  next
    case 2
    with assms round_magnitude_nonneg [of y] show ?thesis by (simp add: round_double_def)
  next
    case 3
    then have "0 < - y" "- y \<le> - x" using assms by simp_all
    then have "round_magnitude (- y) \<le> round_magnitude (- x)" by (rule round_magnitude_mono)
    with 3 show ?thesis by (simp add: round_double_def)
  next
    case 4
    have "0 \<le> round_magnitude (- x)" using 4(1) by (intro round_magnitude_nonneg) simp
    moreover have "0 \<le> round_magnitude y" using 4(2) by (rule round_magnitude_nonneg)
    ultimately show ?thesis using 4 by (simp add: round_double_def)
  qed
qed

lemma round_magnitude_exact:
  assumes m: "0 < m" "m < 2 ^ 53" and k: "- 1074 \<le> k"
  shows "round_magnitude (of_int m * 2 powi k) = of_int m * 2 powi k"
proof -
  define x where "x = real_of_int m * 2 powi k"
  define u where "u = ulp x"
  have u_pos: "0 < u" by (simp add: u_def ulp_pos)
  have pos: "0 < x" using m(1) by (simp add: x_def)
  have "real_of_int m < real_of_int (2 ^ 53)" using m(2) by (simp only: of_int_less_iff)
  then have "x < real_of_int (2 ^ 53) * 2 powi k"
    unfolding x_def by (intro mult_strict_right_mono) simp_all
  also have "real_of_int (2 ^ 53) * 2 powi k = 2 powi (53 + k)"
    using power_int_add [of "2 :: real" 53 k] by simp
  finally have xlt: "x < 2 powi (53 + k)" .
  have "binade x \<le> k + 52"
  proof (rule ccontr)
    assume "\<not> binade x \<le> k + 52"
    then have big: "k + 53 \<le> binade x" by linarith
    with k have "- 1022 < binade x" by linarith
    then have "2 powi (binade x) \<le> x" using pos by (intro binade_lower_unclamped)
    moreover have "(2 :: real) powi (53 + k) \<le> 2 powi (binade x)"
      using big by (intro power_int_increasing) simp_all
    ultimately show False using xlt by linarith
  qed
  then have "0 \<le> k - (binade x - 52)" by linarith
  then obtain d where "k - (binade x - 52) = int d"
    using zero_le_imp_eq_int by blast
  then have d: "k = (binade x - 52) + int d" by linarith
  have "(2 :: real) powi ((binade x - 52) + int d) = 2 powi (binade x - 52) * 2 powi (int d)"
    by (rule power_int_add) simp
  then have "(2 :: real) powi k = 2 powi (binade x - 52) * 2 powi (int d)"
    by (simp only: d [symmetric])
  then have split: "(2 :: real) powi k = u * 2 ^ d" by (simp add: u_def ulp_def)
  have xs: "x = real_of_int (m * 2 ^ d) * u"
    unfolding x_def split by simp
  then have "x / u = real_of_int (m * 2 ^ d)" using u_pos by simp
  then have "round_half_even (x / u) = m * 2 ^ d"
    by (simp only: round_half_even_of_int)
  then have "round_magnitude x = real_of_int (m * 2 ^ d) * u"
    by (simp only: round_magnitude_def u_def)
  then have "round_magnitude x = x" by (simp only: xs [symmetric])
  then show ?thesis by (simp only: x_def)
qed

lemma round_double_exact:
  assumes "\<bar>m\<bar> < 2 ^ 53" and "- 1074 \<le> k"
  shows "round_double (of_int m * 2 powi k) = of_int m * 2 powi k"
proof -
  define x where "x = real_of_int m * 2 powi k"
  consider "m = 0" | "0 < m" | "m < 0" by linarith
  then have "round_double x = x"
  proof cases
    case 1
    then have "x = 0" by (simp add: x_def)
    then show ?thesis by (simp add: round_double_def)
  next
    case 2
    then have "m < 2 ^ 53" using assms(1) by linarith
    from round_magnitude_exact [OF 2 this assms(2)]
    have "round_magnitude x = x" by (simp only: x_def)
    moreover have "0 < x" using 2 by (simp add: x_def)
    ultimately show ?thesis by (simp add: round_double_def)
  next
    case 3
    then have p: "0 < - m" "- m < 2 ^ 53" using assms(1) by linarith+
    have neg: "x < 0" using 3 by (simp add: x_def mult_less_0_iff)
    have mx: "- x = real_of_int (- m) * 2 powi k" by (simp add: x_def)
    from round_magnitude_exact [OF p assms(2)]
    have "round_magnitude (- x) = - x" by (simp only: mx)
    with neg show ?thesis by (simp add: round_double_def)
  qed
  then show ?thesis by (simp only: x_def)
qed

lemma round_double_binade:
  assumes "2 powi e \<le> x" and "x < 2 powi (e + 1)" and "- 1022 \<le> e"
  shows "round_double x = of_int (round_half_even (x / 2 powi (e - 52))) * 2 powi (e - 52)"
proof -
  have pos: "0 < x" using assms(1) zero_less_power_int [of "2 :: real" e] by linarith
  have "binade x = e" using assms by (rule binade_eq)
  then show ?thesis using pos by (simp add: round_double_def round_magnitude_def ulp_def)
qed

lemma round_double_of_int: "\<bar>m\<bar> < 2 ^ 53 \<Longrightarrow> round_double (of_int m) = of_int m"
  using round_double_exact [of m 0] by simp

lemma round_double_halves: "\<bar>m\<bar> < 2 ^ 53 \<Longrightarrow> round_double (of_int m / 2) = of_int m / 2"
  using round_double_exact [of m "- 1"] by (simp add: power_int_minus field_simps)

lemma round_double_quarters: "\<bar>m\<bar> < 2 ^ 53 \<Longrightarrow> round_double (of_int m / 4) = of_int m / 4"
  using round_double_exact [of m "- 2"] by (simp add: power_int_minus field_simps)

lemma round_double_zero: "round_double 0 = 0"
  by (simp add: round_double_def)

lemma round_double_one: "round_double 1 = 1"
  using round_double_of_int [of 1] by simp

lemma round_double_numeral:
  "(numeral n :: int) < 2 ^ 53 \<Longrightarrow> round_double (numeral n) = numeral n"
  using round_double_of_int [of "numeral n"] by simp

lemma round_double_neg_numeral:
  "(numeral n :: int) < 2 ^ 53 \<Longrightarrow> round_double (- numeral n) = - numeral n"
  using round_double_of_int [of "- numeral n"] by simp

lemma round_double_numeral_half:
  "(numeral n :: int) < 2 ^ 53 \<Longrightarrow> round_double (numeral n / 2) = numeral n / 2"
  using round_double_halves [of "numeral n"] by simp

lemma round_double_one_half: "round_double (1 / 2) = 1 / 2"
  using round_double_halves [of 1] by simp

lemma round_double_numeral_quarter:
  "(numeral n :: int) < 2 ^ 53 \<Longrightarrow> round_double (numeral n / 4) = numeral n / 4"
  using round_double_quarters [of "numeral n"] by simp

lemma round_double_one_quarter: "round_double (1 / 4) = 1 / 4"
  using round_double_quarters [of 1] by simp

lemmas exact_doubles = round_double_zero round_double_one round_double_numeral
  round_double_neg_numeral round_double_numeral_half round_double_one_half
  round_double_numeral_quarter round_double_one_quarter

lemmas double_simps = to_double_def dsub_def dmul_def ddiv_def exact_doubles

subsection \<open>Unfolding rules and frame lemmas\<close>

lemmas bench_simps = bench_def bench_costmap_def bench_listener_def identity_transform_def
  single_sample_def pose_at_def following_def initialize_def constructed_def empty_grid_def
  empty_transition_def

lemmas run_simps = getLaserScanPoints_def rasterize_and_publish_def clear_or_initialize_def
  initializeCustomizedCostmap_def initializeTransitionMsg_def clear_costmap_def
  scan_point_robot_base_frame_def scan_point_cell_def scan_costmap_coordinates_def
  plan_costmap_coordinates_def
  plan_pixel_value_def plan_pixel_index_def buffer_costmap_def double_simps to_int32_def to_int8_def
  c_round_def
  vector_store_def vector_at_def

lemmas observe_simps = published_costmap_def published_cell_def cell_value_def rasterized_cell_def

lemma setPlan_following:
  assumes "plan \<noteq> []" and "length plan < 2 ^ 64"
  shows "setPlan env (initialize constructed) plan = Inr (following plan, True)"
proof -
  have "(length plan + 2 ^ 64 - 1) mod 2 ^ 64 = length plan - 1"
  proof -
    have "0 < length plan" using assms(1) by simp
    then have "length plan + 2 ^ 64 - 1 = (length plan - 1) + 1 * 2 ^ 64" by simp
    then have "(length plan + 2 ^ 64 - 1) mod 2 ^ 64 = (length plan - 1) mod 2 ^ 64"
      by (simp only: mod_mult_self1)
    also have "\<dots> = length plan - 1" using assms(2) by simp
    finally show ?thesis .
  qed
  then show ?thesis using assms(1)
    by (simp add: setPlan_def vector_at_def following_def initialize_def constructed_def
        last_conv_nth Let_def)
qed


lemma add_laser_scan_points_frame:
  "add_laser_scan_points cm t ls i rs g = Inr g' \<Longrightarrow>
     header_frame_id g' = header_frame_id g \<and> header_stamp g' = header_stamp g
     \<and> header_seq g' = header_seq g \<and> info_width g' = info_width g
     \<and> info_height g' = info_height g \<and> info_resolution g' = info_resolution g
     \<and> info_origin_x g' = info_origin_x g \<and> info_origin_y g' = info_origin_y g
     \<and> length (data g') = length (data g)"
proof (induction rs arbitrary: i g)
  case Nil
  then show ?case by simp
next
  case (Cons r rs)
  then show ?case
    by (fastforce simp: vector_store_def split: if_splits sum.splits prod.splits)
qed

lemma add_plan_pixels_frame:
  "add_plan_pixels n c cs g = Inr g' \<Longrightarrow>
     header_frame_id g' = header_frame_id g \<and> header_stamp g' = header_stamp g
     \<and> header_seq g' = header_seq g \<and> info_width g' = info_width g
     \<and> info_height g' = info_height g \<and> info_resolution g' = info_resolution g
     \<and> info_origin_x g' = info_origin_x g \<and> info_origin_y g' = info_origin_y g
     \<and> length (data g') = length (data g)"
proof (induction cs arbitrary: c g)
  case Nil
  then show ?case by simp
next
  case (Cons xy cs)
  then show ?case
    by (fastforce simp: vector_store_def split: if_splits sum.splits)
qed

lemma rasterize_and_publish_frame:
  assumes "rasterize_and_publish env s ls = Inr (s', g, m)"
  shows "header_frame_id g = header_frame_id (customized_costmap s)
     \<and> header_stamp g = scan_stamp ls
     \<and> header_seq g = header_seq (customized_costmap s)
     \<and> info_width g = info_width (customized_costmap s)
     \<and> info_height g = info_height (customized_costmap s)
     \<and> info_resolution g = info_resolution (customized_costmap s)
     \<and> info_origin_x g = info_origin_x (customized_costmap s)
     \<and> info_origin_y g = info_origin_y (customized_costmap s)
     \<and> length (data g) = length (data (customized_costmap s))
     \<and> is_customized_costmap_initialized s' = is_customized_costmap_initialized s
     \<and> customized_costmap s' = g\<lparr>header_seq := header_seq g + 1\<rparr>"
proof -
  let ?g1 = "(customized_costmap s)\<lparr>header_stamp := scan_stamp ls\<rparr>"
  from assms obtain g2 cs where
    scan: "add_laser_scan_points (costmap env)
             (case lookupTransform (tf env) (header_frame_id ?g1) (scan_frame_id ls) of
                None \<Rightarrow> unassigned_transform env | Some t' \<Rightarrow> t')
             ls 0 (ranges ls) ?g1 = Inr g2"
    and plan: "add_plan_pixels (int (length cs)) 0 cs g2 = Inr g"
    and s': "s' = s\<lparr>customized_costmap := g\<lparr>header_seq := header_seq g + 1\<rparr>,
               transition_msg := fst (buffer_costmap (transition_msg s)
                                        (g\<lparr>header_seq := header_seq g + 1\<rparr>))\<rparr>"
    unfolding rasterize_and_publish_def Let_def by (auto split: sum.splits)
  from add_laser_scan_points_frame [OF scan] add_plan_pixels_frame [OF plan] s'
  show ?thesis by simp
qed

subsection \<open>The clear step\<close>

text \<open>
  Claim C9. When the customized costmap has been initialised, step 1 sets every cell of
  the buffer to the background value 70, leaves the width, the height, the resolution and
  the origin as they were, and leaves a buffer of \<^verbatim>\<open>width*height\<close> cells, the product taken
  in \<^verbatim>\<open>uint32\<close> as the source does; it is the product of the numbers when that fits 32 bits.
\<close>

theorem clear_step_background:
  assumes "is_customized_costmap_initialized s"
  shows "data (customized_costmap (clear_or_initialize env s))
           = replicate (unat (info_width (customized_costmap s) * info_height (customized_costmap s))) 70
     \<and> info_width (customized_costmap (clear_or_initialize env s)) = info_width (customized_costmap s)
     \<and> info_height (customized_costmap (clear_or_initialize env s)) = info_height (customized_costmap s)
     \<and> info_resolution (customized_costmap (clear_or_initialize env s))
           = info_resolution (customized_costmap s)
     \<and> info_origin_x (customized_costmap (clear_or_initialize env s))
           = info_origin_x (customized_costmap s)
     \<and> info_origin_y (customized_costmap (clear_or_initialize env s))
           = info_origin_y (customized_costmap s)
     \<and> length (data (customized_costmap (clear_or_initialize env s)))
           = unat (info_width (customized_costmap s) * info_height (customized_costmap s))
     \<and> (unat (info_width (customized_costmap s)) * unat (info_height (customized_costmap s)) < 2 ^ 32
          \<longrightarrow> length (data (customized_costmap (clear_or_initialize env s)))
                = unat (info_width (customized_costmap s)) * unat (info_height (customized_costmap s)))"
  using assms by (simp add: clear_or_initialize_def clear_costmap_def unat_word_ariths)

theorem clear_step_background_witness:
  "is_customized_costmap_initialized
     ((initialize constructed)\<lparr>is_customized_costmap_initialized := True,
        customized_costmap := small_grid [100, 50]\<rparr>)
   \<and> unat (2 :: 32 word) * unat (1 :: 32 word) < 2 ^ 32
   \<and> data (customized_costmap (clear_or_initialize bench
        ((initialize constructed)\<lparr>is_customized_costmap_initialized := True,
           customized_costmap := small_grid [100, 50]\<rparr>))) = [70, 70]
   \<and> info_width (customized_costmap (clear_or_initialize bench
        ((initialize constructed)\<lparr>is_customized_costmap_initialized := True,
           customized_costmap := small_grid [100, 50]\<rparr>))) = 2
   \<and> length (data (customized_costmap (clear_or_initialize bench
        ((initialize constructed)\<lparr>is_customized_costmap_initialized := True,
           customized_costmap := small_grid [100, 50]\<rparr>)))) = 2 * 1"
proof -
  let ?s = "(initialize constructed)\<lparr>is_customized_costmap_initialized := True,
              customized_costmap := small_grid [100, 50]\<rparr>"
  have h: "is_customized_costmap_initialized ?s" by simp
  have r: "replicate 2 (70 :: int) = [70, 70]" by (simp add: numeral_2_eq_2)
  from clear_step_background [OF h, of bench] h show ?thesis
    by (simp add: small_grid_def r)
qed

subsection \<open>The first scan\<close>

lemma bench_first_scan:
  "getLaserScanPoints bench (initialize constructed) (single_sample 1) =
     Inr ((initialize constructed)
            \<lparr>is_customized_costmap_initialized := True,
             customized_costmap := bench_grid\<lparr>header_seq := 1, data := (replicate 6400 70)[3260 := 100]\<rparr>,
             transition_msg := empty_transition\<lparr>tr_width := 80, tr_height := 80, tr_depth := 4,
                state_representation := (replicate 6400 70)[3260 := 100]\<rparr>\<rparr>,
          bench_grid\<lparr>data := (replicate 6400 70)[3260 := 100]\<rparr>,
          None)"
  by (simp add: bench_simps run_simps bench_grid_def)

text \<open>
  Claim C10. When the customized costmap has not been initialised, the scan callback
  initialises it (frame, width, height, resolution and origin from the costmap, every
  cell 70) and then runs steps 2 to 5 on that same scan, the steps it runs on an
  initialised planner after the clear step. If the run ends without fault it has published
  a costmap with the geometry of the costmap and the stamp of the scan, and the planner
  is initialised.
\<close>

theorem first_scan_is_rasterized:
  assumes "\<not> is_customized_costmap_initialized s"
  shows "getLaserScanPoints env s ls
           = rasterize_and_publish env
               ((initializeCustomizedCostmap env s)\<lparr>is_customized_costmap_initialized := True\<rparr>) ls
     \<and> customized_costmap (initializeCustomizedCostmap env s)
           = \<lparr>header_frame_id = ''/base_footprint'', header_stamp = time_now env, header_seq = 0,
              info_width = getSizeInCellsX (costmap env),
              info_height = getSizeInCellsY (costmap env),
              info_resolution = getResolution (costmap env),
              info_origin_x = - getSizeInMetersX (costmap env) / 2,
              info_origin_y = - getSizeInMetersY (costmap env) / 2,
              data = replicate (unat (getSizeInCellsX (costmap env) * getSizeInCellsY (costmap env))) 70\<rparr>
     \<and> (is_customized_costmap_initialized s2 \<longrightarrow>
           getLaserScanPoints env s2 ls
             = rasterize_and_publish env
                 (s2\<lparr>customized_costmap := clear_costmap (customized_costmap s2)\<rparr>) ls)
     \<and> (getLaserScanPoints env s ls = Inr (s', g, m) \<longrightarrow>
           is_customized_costmap_initialized s'
           \<and> customized_costmap s' = g\<lparr>header_seq := 1\<rparr>
           \<and> header_frame_id g = ''/base_footprint''
           \<and> header_stamp g = scan_stamp ls
           \<and> header_seq g = 0
           \<and> info_width g = getSizeInCellsX (costmap env)
           \<and> info_height g = getSizeInCellsY (costmap env)
           \<and> info_resolution g = getResolution (costmap env)
           \<and> info_origin_x g = - getSizeInMetersX (costmap env) / 2
           \<and> info_origin_y g = - getSizeInMetersY (costmap env) / 2
           \<and> length (data g) = unat (getSizeInCellsX (costmap env) * getSizeInCellsY (costmap env)))"
proof -
  let ?s1 = "(initializeCustomizedCostmap env s)\<lparr>is_customized_costmap_initialized := True\<rparr>"
  have run: "getLaserScanPoints env s ls = rasterize_and_publish env ?s1 ls"
    using assms by (simp add: getLaserScanPoints_def clear_or_initialize_def)
  have init: "customized_costmap (initializeCustomizedCostmap env s)
           = \<lparr>header_frame_id = ''/base_footprint'', header_stamp = time_now env, header_seq = 0,
              info_width = getSizeInCellsX (costmap env),
              info_height = getSizeInCellsY (costmap env),
              info_resolution = getResolution (costmap env),
              info_origin_x = - getSizeInMetersX (costmap env) / 2,
              info_origin_y = - getSizeInMetersY (costmap env) / 2,
              data = replicate (unat (getSizeInCellsX (costmap env) * getSizeInCellsY (costmap env))) 70\<rparr>"
    by (simp add: initializeCustomizedCostmap_def initializeTransitionMsg_def Let_def)
  have other: "is_customized_costmap_initialized s2 \<longrightarrow>
           getLaserScanPoints env s2 ls
             = rasterize_and_publish env
                 (s2\<lparr>customized_costmap := clear_costmap (customized_costmap s2)\<rparr>) ls"
    by (simp add: getLaserScanPoints_def clear_or_initialize_def)
  have published: "is_customized_costmap_initialized s'
           \<and> customized_costmap s' = g\<lparr>header_seq := 1\<rparr>
           \<and> header_frame_id g = ''/base_footprint''
           \<and> header_stamp g = scan_stamp ls
           \<and> header_seq g = 0
           \<and> info_width g = getSizeInCellsX (costmap env)
           \<and> info_height g = getSizeInCellsY (costmap env)
           \<and> info_resolution g = getResolution (costmap env)
           \<and> info_origin_x g = - getSizeInMetersX (costmap env) / 2
           \<and> info_origin_y g = - getSizeInMetersY (costmap env) / 2
           \<and> length (data g) = unat (getSizeInCellsX (costmap env) * getSizeInCellsY (costmap env))"
    if "getLaserScanPoints env s ls = Inr (s', g, m)"
  proof -
    from that run have "rasterize_and_publish env ?s1 ls = Inr (s', g, m)" by simp
    from rasterize_and_publish_frame [OF this] show ?thesis
      by (simp add: init)
  qed
  from run init other published show ?thesis by blast
qed

theorem first_scan_is_rasterized_witness:
  "\<not> is_customized_costmap_initialized (initialize constructed)
   \<and> is_customized_costmap_initialized
        ((initialize constructed)\<lparr>is_customized_costmap_initialized := True,
            customized_costmap := small_grid [100, 50]\<rparr>)
   \<and> getLaserScanPoints bench (initialize constructed) (single_sample 1)
        = Inr ((initialize constructed)
                 \<lparr>is_customized_costmap_initialized := True,
                  customized_costmap :=
                    bench_grid\<lparr>header_seq := 1, data := (replicate 6400 70)[3260 := 100]\<rparr>,
                  transition_msg :=
                    empty_transition\<lparr>tr_width := 80, tr_height := 80, tr_depth := 4,
                      state_representation := (replicate 6400 70)[3260 := 100]\<rparr>\<rparr>,
               bench_grid\<lparr>data := (replicate 6400 70)[3260 := 100]\<rparr>,
               None)
   \<and> info_width (bench_grid\<lparr>data := (replicate 6400 70)[3260 := 100]\<rparr>) = getSizeInCellsX (costmap bench)
   \<and> length (data (bench_grid\<lparr>data := (replicate 6400 70)[3260 := 100]\<rparr>)) = 6400
   \<and> getLaserScanPoints bench (initialize constructed) (single_sample 1)
        = rasterize_and_publish bench
            ((initializeCustomizedCostmap bench (initialize constructed))
               \<lparr>is_customized_costmap_initialized := True\<rparr>) (single_sample 1)"
proof -
  have h1: "\<not> is_customized_costmap_initialized (initialize constructed)"
    by (simp add: initialize_def constructed_def)
  have h2: "is_customized_costmap_initialized
        ((initialize constructed)\<lparr>is_customized_costmap_initialized := True,
            customized_costmap := small_grid [100, 50]\<rparr>)"
    by simp
  note t = first_scan_is_rasterized [OF h1, of bench "single_sample 1"
      "(initialize constructed)\<lparr>is_customized_costmap_initialized := True,
            customized_costmap := small_grid [100, 50]\<rparr>"
      "(initialize constructed)
                 \<lparr>is_customized_costmap_initialized := True,
                  customized_costmap :=
                    bench_grid\<lparr>header_seq := 1, data := (replicate 6400 70)[3260 := 100]\<rparr>,
                  transition_msg :=
                    empty_transition\<lparr>tr_width := 80, tr_height := 80, tr_depth := 4,
                      state_representation := (replicate 6400 70)[3260 := 100]\<rparr>\<rparr>"
      "bench_grid\<lparr>data := (replicate 6400 70)[3260 := 100]\<rparr>" None]
  from t bench_first_scan
  have "info_width (bench_grid\<lparr>data := (replicate 6400 70)[3260 := 100]\<rparr>) = getSizeInCellsX (costmap bench)"
    and "length (data (bench_grid\<lparr>data := (replicate 6400 70)[3260 := 100]\<rparr>))
           = unat (getSizeInCellsX (costmap bench) * getSizeInCellsY (costmap bench))"
    by blast+
  moreover have "unat (getSizeInCellsX (costmap bench) * getSizeInCellsY (costmap bench)) = 6400"
    by (simp add: bench_def bench_costmap_def)
  moreover from t have "getLaserScanPoints bench (initialize constructed) (single_sample 1)
        = rasterize_and_publish bench
            ((initializeCustomizedCostmap bench (initialize constructed))
               \<lparr>is_customized_costmap_initialized := True\<rparr>) (single_sample 1)"
    by blast
  ultimately show ?thesis using h1 h2 bench_first_scan by simp
qed

subsection \<open>Scenarios of the scan rasterizer\<close>

text \<open>
  Claim C3, as stated, fails. For one sample of range 1 at angle 0 under the identity
  transform on the 80 by 80 costmap of 4 m by 4 m, the cell \<open>(59, 39)\<close> of the published
  costmap is not 100.
\<close>

theorem scan_range_one_cell_59_39_counterexample:
  "published_cell (getLaserScanPoints bench (initialize constructed) (single_sample 1)) 59 39
     \<noteq> Some 100"
  by (simp add: bench_simps run_simps observe_simps)

text \<open>
  Claim C3, amended. In that scenario the intermediate values are 59.5 and 39.5, which
  \<^verbatim>\<open>round\<close> takes away from zero: the sample is mapped to the cell \<open>(60, 40)\<close>, which is
  set to 100, and every other cell, \<open>(59, 39)\<close> among them, keeps the value 70.
\<close>

theorem scan_range_one_cell_60_40:
  "scan_point_cell bench_costmap bench_grid identity_transform (single_sample 1) 0 1 = Inr (60, 40)
   \<and> c_round ((1 - (- 2)) / 4 * 80 - 1 / 2) = 60
   \<and> c_round ((0 - (- 2)) / 4 * 80 - 1 / 2) = 40
   \<and> map_option data
        (published_costmap (getLaserScanPoints bench (initialize constructed) (single_sample 1)))
       = Some ((replicate 6400 70)[60 + 40 * 80 := 100])
   \<and> published_cell (getLaserScanPoints bench (initialize constructed) (single_sample 1)) 60 40
       = Some 100
   \<and> published_cell (getLaserScanPoints bench (initialize constructed) (single_sample 1)) 59 39
       = Some 70"
  by (simp add: bench_simps run_simps observe_simps bench_grid_def)

text \<open>
  Claim C8. For one sample of range 2 at angle 0 under the identity transform on the same
  costmap, the computed cell is \<open>(80, 40)\<close>, outside the costmap: the loop writes nothing
  and ends without fault, and the published costmap holds 70 in every cell.
\<close>

theorem scan_range_two_dropped:
  "scan_point_cell bench_costmap bench_grid identity_transform (single_sample 2) 0 2 = Inr (80, 40)
   \<and> add_laser_scan_points bench_costmap identity_transform (single_sample 2) 0 [2] bench_grid
       = Inr bench_grid
   \<and> map_option data
        (published_costmap (getLaserScanPoints bench (initialize constructed) (single_sample 2)))
       = Some (replicate 6400 70)"
  by (simp add: bench_simps run_simps observe_simps bench_grid_def)

subsection \<open>Degenerate plans\<close>

text \<open>
  Claim C5, at the failing input. \<open>setPlan\<close> on an initialised planner with an empty plan
  reads \<^verbatim>\<open>orig_global_plan.at(size() - 1)\<close> and throws \<^verbatim>\<open>std::out_of_range\<close>. The two loops
  of step 3 on an empty plan change nothing and raise nothing.
\<close>

theorem setPlan_empty_plan_throws:
  "setPlan bench (initialize constructed) [] = Inl Out_of_range
   \<and> plan_map_coordinates bench bench_grid (0, 0) [] [] = Inr []
   \<and> add_plan_pixels 0 0 [] bench_grid = Inr bench_grid"
  by (simp add: bench_simps setPlan_def vector_at_def)

text \<open>
  Claim C2, at the failing input. A plan of one pose that falls into the costmap gives one
  valid cell; its value is computed from the quotient of 0 by 0 and the conversion of the
  result to \<^verbatim>\<open>int8_t\<close> is undefined.
\<close>

theorem single_valid_path_point_undefined:
  "plan_map_coordinates bench bench_grid (0, 0) [pose_at ''map'' 0 0] [] = Inr [(40, 40)]
   \<and> plan_pixel_value 0 1 = Inl Undefined_conversion
   \<and> getLaserScanPoints bench (following [pose_at ''map'' 0 0]) (single_sample 2)
       = Inl Undefined_conversion"
  by (simp add: bench_simps run_simps bench_grid_def)

text \<open>
  Claim C4, at the failing input. The transform of the first pose of the plan throws. The
  loop goes on with the value-initialised pose at \<open>(0, 0)\<close>, whose cell \<open>(40, 40)\<close> enters
  the list of coordinates and is written with the value 50; the two later poses get 25
  and 0.
\<close>

theorem failed_pose_is_rasterized:
  "transformPose (tf bench) ''/base_footprint'' ((pose_at ''odom'' 1 1)\<lparr>pose_stamp := 1\<rparr>) = None
   \<and> plan_map_coordinates bench bench_grid (0, 0)
        [pose_at ''odom'' 1 1, pose_at ''map'' 1 0, pose_at ''map'' 1 1] []
       = Inr [(40, 40), (60, 40), (60, 60)]
   \<and> map_option data
        (published_costmap (getLaserScanPoints bench
           (following [pose_at ''odom'' 1 1, pose_at ''map'' 1 0, pose_at ''map'' 1 1])
           (single_sample 2)))
       = Some ((replicate 6400 70)[40 + 40 * 80 := 50, 60 + 40 * 80 := 25, 60 + 60 * 80 := 0])
   \<and> published_cell (getLaserScanPoints bench
         (following [pose_at ''odom'' 1 1, pose_at ''map'' 1 0, pose_at ''map'' 1 1])
         (single_sample 2)) 40 40
       = Some 50"
  by (simp add: bench_simps run_simps observe_simps bench_grid_def)

subsection \<open>The buffer of consecutive costmaps\<close>

lemma buffer_costmap_filling:
  "length (state_representation tm) \<noteq> unat (tr_width tm * tr_height tm * tr_depth tm) \<Longrightarrow>
     buffer_costmap tm g = (tm\<lparr>state_representation := state_representation tm @ data g\<rparr>, None)"
  by (simp add: buffer_costmap_def)

lemma buffer_costmap_full:
  "length (state_representation tm) = unat (tr_width tm * tr_height tm * tr_depth tm) \<Longrightarrow>
     buffer_costmap tm g =
       (tm\<lparr>tr_stamp := header_stamp g, tr_frame_id := header_frame_id g,
            tr_seq := tr_seq tm + 1, state_representation := []\<rparr>,
        Some (tm\<lparr>tr_stamp := header_stamp g, tr_frame_id := header_frame_id g\<rparr>))"
  by (simp add: buffer_costmap_def)

lemma unat_stack_size:
  fixes w h :: "32 word"
  assumes "4 * (unat w * unat h) < 2 ^ 32"
  shows "unat (w * h * 4) = 4 * (unat w * unat h)"
proof -
  from assms have small: "unat w * unat h < 2 ^ 32" by linarith
  have wh: "unat (w * h) = unat w * unat h"
  proof -
    have "unat (w * h) = (unat w * unat h) mod 2 ^ 32"
      by (simp add: unat_word_ariths)
    with small show ?thesis by simp
  qed
  have "unat (w * h * 4) = (unat (w * h) * 4) mod 2 ^ 32"
    by (simp add: unat_word_ariths)
  then have "unat (w * h * 4) = (unat w * unat h * 4) mod 2 ^ 32"
    by (simp only: wh)
  also have "\<dots> = 4 * (unat w * unat h)"
    using assms by (simp add: mult.commute)
  finally show ?thesis .
qed

text \<open>
  Claim C1, as stated, fails. Four costmaps of two cells buffered into an empty transition
  message of width 2, height 1 and depth 4 do not publish one stacked unit, and the
  buffer is not empty afterwards.
\<close>

theorem four_costmaps_fill_fifth_emits_counterexample:
  "length (snd (buffer_costmaps small_transition
       [small_grid [70, 100], small_grid [70, 70], small_grid [100, 70], small_grid [50, 0]])) \<noteq> 1
   \<and> state_representation (fst (buffer_costmaps small_transition
       [small_grid [70, 100], small_grid [70, 70], small_grid [100, 70], small_grid [50, 0]])) \<noteq> []"
  by (simp add: small_transition_def small_grid_def buffer_costmap_def)

text \<open>
  Claim C1, amended. A call publishes exactly when the buffer already holds
  \<^verbatim>\<open>width*height*depth\<close> cells on entry, the size being tested before anything is added.
  So, for a depth of 4 and costmaps of \<open>width*height > 0\<close> cells, three costmaps buffered into
  an empty message publish nothing, four publish nothing and leave their cells in the
  buffer, oldest first, \<open>width*height*4\<close> of them; the fifth call publishes exactly that
  stacked unit and leaves the buffer empty.
\<close>

theorem four_costmaps_fill_fifth_emits:
  assumes empty: "state_representation tm = []"
    and depth: "tr_depth tm = 4"
    and cells: "0 < unat (tr_width tm) * unat (tr_height tm)"
    and fits: "4 * (unat (tr_width tm) * unat (tr_height tm)) < 2 ^ 32"
    and g1: "length (data g1) = unat (tr_width tm) * unat (tr_height tm)"
    and g2: "length (data g2) = unat (tr_width tm) * unat (tr_height tm)"
    and g3: "length (data g3) = unat (tr_width tm) * unat (tr_height tm)"
    and g4: "length (data g4) = unat (tr_width tm) * unat (tr_height tm)"
  shows "(snd (buffer_costmap tm' g) \<noteq> None)
           = (length (state_representation tm') = unat (tr_width tm' * tr_height tm' * tr_depth tm'))
     \<and> buffer_costmaps tm [g1, g2, g3]
           = (tm\<lparr>state_representation := data g1 @ data g2 @ data g3\<rparr>, [])
     \<and> buffer_costmaps tm [g1, g2, g3, g4]
           = (tm\<lparr>state_representation := data g1 @ data g2 @ data g3 @ data g4\<rparr>, [])
     \<and> buffer_costmaps tm [g1, g2, g3, g4, g5]
           = (tm\<lparr>tr_stamp := header_stamp g5, tr_frame_id := header_frame_id g5,
                  tr_seq := tr_seq tm + 1, state_representation := []\<rparr>,
              [tm\<lparr>tr_stamp := header_stamp g5, tr_frame_id := header_frame_id g5,
                  state_representation := data g1 @ data g2 @ data g3 @ data g4\<rparr>])
     \<and> length (data g1 @ data g2 @ data g3 @ data g4)
           = unat (tr_width tm) * unat (tr_height tm) * 4"
proof -
  let ?n = "unat (tr_width tm) * unat (tr_height tm)"
  let ?t1 = "tm\<lparr>state_representation := data g1\<rparr>"
  let ?t2 = "tm\<lparr>state_representation := data g1 @ data g2\<rparr>"
  let ?t3 = "tm\<lparr>state_representation := data g1 @ data g2 @ data g3\<rparr>"
  let ?t4 = "tm\<lparr>state_representation := data g1 @ data g2 @ data g3 @ data g4\<rparr>"
  have size: "unat (tr_width tm * tr_height tm * tr_depth tm) = 4 * ?n"
    using fits by (simp add: depth unat_stack_size)
  have p1: "buffer_costmap tm g1 = (?t1, None)"
    using cells by (simp add: buffer_costmap_filling size empty)
  have p2: "buffer_costmap ?t1 g2 = (?t2, None)"
    using cells by (simp add: buffer_costmap_filling size g1)
  have p3: "buffer_costmap ?t2 g3 = (?t3, None)"
    using cells by (simp add: buffer_costmap_filling size g1 g2)
  have p4: "buffer_costmap ?t3 g4 = (?t4, None)"
    using cells by (simp add: buffer_costmap_filling size g1 g2 g3)
  have p5: "buffer_costmap ?t4 g5 =
      (tm\<lparr>tr_stamp := header_stamp g5, tr_frame_id := header_frame_id g5,
          tr_seq := tr_seq tm + 1, state_representation := []\<rparr>,
       Some (tm\<lparr>tr_stamp := header_stamp g5, tr_frame_id := header_frame_id g5,
               state_representation := data g1 @ data g2 @ data g3 @ data g4\<rparr>))"
    by (simp add: buffer_costmap_full size g1 g2 g3 g4)
  have emit: "(snd (buffer_costmap tm' g) \<noteq> None)
           = (length (state_representation tm') = unat (tr_width tm' * tr_height tm' * tr_depth tm'))"
    by (simp add: buffer_costmap_def)
  have three: "buffer_costmaps tm [g1, g2, g3] = (?t3, [])"
    by (simp add: p1 p2 p3)
  have four: "buffer_costmaps tm [g1, g2, g3, g4] = (?t4, [])"
    by (simp add: p1 p2 p3 p4)
  have five: "buffer_costmaps tm [g1, g2, g3, g4, g5]
           = (tm\<lparr>tr_stamp := header_stamp g5, tr_frame_id := header_frame_id g5,
                  tr_seq := tr_seq tm + 1, state_representation := []\<rparr>,
              [tm\<lparr>tr_stamp := header_stamp g5, tr_frame_id := header_frame_id g5,
                  state_representation := data g1 @ data g2 @ data g3 @ data g4\<rparr>])"
    by (simp add: p1 p2 p3 p4 p5)
  have len: "length (data g1 @ data g2 @ data g3 @ data g4) = ?n * 4"
    by (simp add: g1 g2 g3 g4)
  from emit three four five len show ?thesis by blast
qed

theorem four_costmaps_fill_fifth_emits_witness:
  "state_representation small_transition = []
   \<and> tr_depth small_transition = 4
   \<and> 0 < unat (tr_width small_transition) * unat (tr_height small_transition)
   \<and> 4 * (unat (tr_width small_transition) * unat (tr_height small_transition)) < 2 ^ 32
   \<and> length (data (small_grid [70, 100])) = unat (tr_width small_transition) * unat (tr_height small_transition)
   \<and> length (data (small_grid [70, 70])) = unat (tr_width small_transition) * unat (tr_height small_transition)
   \<and> length (data (small_grid [100, 70])) = unat (tr_width small_transition) * unat (tr_height small_transition)
   \<and> length (data (small_grid [50, 0])) = unat (tr_width small_transition) * unat (tr_height small_transition)
   \<and> snd (buffer_costmaps small_transition [small_grid [70, 100], small_grid [70, 70], small_grid [100, 70]]) = []
   \<and> buffer_costmaps small_transition
        [small_grid [70, 100], small_grid [70, 70], small_grid [100, 70], small_grid [50, 0]]
       = (small_transition\<lparr>state_representation := [70, 100, 70, 70, 100, 70, 50, 0]\<rparr>, [])
   \<and> buffer_costmaps small_transition
        [small_grid [70, 100], small_grid [70, 70], small_grid [100, 70], small_grid [50, 0],
         small_grid [25, 25]]
       = (small_transition\<lparr>tr_stamp := 1, tr_frame_id := ''/base_footprint'', tr_seq := 1\<rparr>,
          [small_transition\<lparr>tr_stamp := 1, tr_frame_id := ''/base_footprint'',
             state_representation := [70, 100, 70, 70, 100, 70, 50, 0]\<rparr>])"
proof -
  have h: "state_representation small_transition = []"
    "tr_depth small_transition = 4"
    "0 < unat (tr_width small_transition) * unat (tr_height small_transition)"
    "4 * (unat (tr_width small_transition) * unat (tr_height small_transition)) < 2 ^ 32"
    "length (data (small_grid [70, 100])) = unat (tr_width small_transition) * unat (tr_height small_transition)"
    "length (data (small_grid [70, 70])) = unat (tr_width small_transition) * unat (tr_height small_transition)"
    "length (data (small_grid [100, 70])) = unat (tr_width small_transition) * unat (tr_height small_transition)"
    "length (data (small_grid [50, 0])) = unat (tr_width small_transition) * unat (tr_height small_transition)"
    by (simp_all add: small_transition_def small_grid_def)
  note t = four_costmaps_fill_fifth_emits [OF h, of _ _ "small_grid [25, 25]"]
  from t have "buffer_costmaps small_transition
        [small_grid [70, 100], small_grid [70, 70], small_grid [100, 70]]
       = (small_transition\<lparr>state_representation :=
            data (small_grid [70, 100]) @ data (small_grid [70, 70]) @ data (small_grid [100, 70])\<rparr>, [])"
    by blast
  then have three: "snd (buffer_costmaps small_transition
        [small_grid [70, 100], small_grid [70, 70], small_grid [100, 70]]) = []"
    by simp
  from t have "buffer_costmaps small_transition
        [small_grid [70, 100], small_grid [70, 70], small_grid [100, 70], small_grid [50, 0]]
       = (small_transition\<lparr>state_representation :=
            data (small_grid [70, 100]) @ data (small_grid [70, 70]) @ data (small_grid [100, 70])
              @ data (small_grid [50, 0])\<rparr>, [])"
    by blast
  then have four: "buffer_costmaps small_transition
        [small_grid [70, 100], small_grid [70, 70], small_grid [100, 70], small_grid [50, 0]]
       = (small_transition\<lparr>state_representation := [70, 100, 70, 70, 100, 70, 50, 0]\<rparr>, [])"
    by (simp add: small_grid_def)
  from t have "buffer_costmaps small_transition
        [small_grid [70, 100], small_grid [70, 70], small_grid [100, 70], small_grid [50, 0],
         small_grid [25, 25]]
       = (small_transition\<lparr>tr_stamp := header_stamp (small_grid [25, 25]),
             tr_frame_id := header_frame_id (small_grid [25, 25]),
             tr_seq := tr_seq small_transition + 1, state_representation := []\<rparr>,
          [small_transition\<lparr>tr_stamp := header_stamp (small_grid [25, 25]),
             tr_frame_id := header_frame_id (small_grid [25, 25]),
             state_representation :=
               data (small_grid [70, 100]) @ data (small_grid [70, 70]) @ data (small_grid [100, 70])
                 @ data (small_grid [50, 0])\<rparr>])"
    by blast
  then have five: "buffer_costmaps small_transition
        [small_grid [70, 100], small_grid [70, 70], small_grid [100, 70], small_grid [50, 0],
         small_grid [25, 25]]
       = (small_transition\<lparr>tr_stamp := 1, tr_frame_id := ''/base_footprint'', tr_seq := 1\<rparr>,
          [small_transition\<lparr>tr_stamp := 1, tr_frame_id := ''/base_footprint'',
             state_representation := [70, 100, 70, 70, 100, 70, 50, 0]\<rparr>])"
    by (simp add: small_grid_def small_transition_def)
  from h three four five show ?thesis by simp
qed

subsection \<open>The mapping from the robot base frame to cells\<close>

lemma scan_costmap_coordinates_spec:
  assumes "spec_cellX cm g x = Some cx" and "spec_cellY cm g y = Some cy"
    and "- (2 ^ 31) \<le> cx" and "cx < 2 ^ 31" and "- (2 ^ 31) \<le> cy" and "cy < 2 ^ 31"
  shows "scan_costmap_coordinates cm g x y = Inr (cx, cy)"
  using assms
  by (auto simp: scan_costmap_coordinates_def to_int32_def spec_cellX_def spec_cellY_def
      spec_cell_def)

lemma plan_costmap_coordinates_spec:
  assumes "spec_cellX cm g x = Some cx" and "spec_cellY cm g y = Some cy"
    and "- (2 ^ 31) \<le> cx" and "cx < 2 ^ 31" and "- (2 ^ 31) \<le> cy" and "cy < 2 ^ 31"
  shows "plan_costmap_coordinates cm g (x, y) = Inr (cx, cy)"
  using assms
  by (auto simp: plan_costmap_coordinates_def to_int32_def spec_cellX_def spec_cellY_def
      spec_cell_def)

lemma scan_costmap_coordinates_undefined:
  assumes "spec_cellX cm g x = None"
  shows "scan_costmap_coordinates cm g x y = Inl Undefined_conversion"
  using assms
  by (auto simp: scan_costmap_coordinates_def spec_cellX_def spec_cell_def split: option.splits)

text \<open>
  The order of the operations and their rounding matter: at the point \<open>x = -2^-70\<close> of the
  bench the difference \<open>x - origin.x\<close> rounds to 2 and the column is 40, where the same
  expression in exact arithmetic gives 39.
\<close>

lemma round_double_below_two: "round_double (2 - 1 / 2 ^ 70) = 2"
proof -
  have "round_double (2 - 1 / 2 ^ 70)
      = of_int (round_half_even ((2 - 1 / 2 ^ 70) / 2 powi (0 - 52))) * 2 powi (0 - 52)"
    by (rule round_double_binade) simp_all
  also have "\<dots> = 2"
    by (simp add: round_half_even_def power_int_minus)
  finally show ?thesis .
qed

lemma column_of_point_below_origin:
  "spec_cellX bench_costmap bench_grid (- (1 / 2 ^ 70)) = Some 40"
  "scan_costmap_coordinates bench_costmap bench_grid (- (1 / 2 ^ 70)) 0 = Inr (40, 40)"
  "plan_costmap_coordinates bench_costmap bench_grid (- (1 / 2 ^ 70), 0) = Inr (40, 40)"
  "c_round (((- (1 / 2 ^ 70) - (- 2)) / 4) * 80 - 1 / 2) = 39"
proof -
  have r: "round_double (2361183241434822606847 / 1180591620717411303424) = 2"
    using round_double_below_two by simp
  show "spec_cellX bench_costmap bench_grid (- (1 / 2 ^ 70)) = Some 40"
    by (simp add: spec_cellX_def spec_cell_def bench_costmap_def bench_grid_def double_simps r
        c_round_def)
  show "scan_costmap_coordinates bench_costmap bench_grid (- (1 / 2 ^ 70)) 0 = Inr (40, 40)"
    by (simp add: scan_costmap_coordinates_def bench_costmap_def bench_grid_def double_simps r
        c_round_def to_int32_def)
  show "plan_costmap_coordinates bench_costmap bench_grid (- (1 / 2 ^ 70), 0) = Inr (40, 40)"
    by (simp add: plan_costmap_coordinates_def bench_costmap_def bench_grid_def double_simps r
        c_round_def to_int32_def)
  show "c_round (((- (1 / 2 ^ 70) - (- 2)) / 4) * 80 - 1 / 2) = 39"
    by (simp add: c_round_def)
qed

lemma bounds_check_spec:
  "(x \<ge> 0 \<and> y \<ge> 0 \<and> x < uint (info_width g) \<and> y < uint (info_height g))
     = (\<not> spec_invalid g x y)"
  by (auto simp: spec_invalid_def)

lemma cell_index_no_wrap:
  fixes w h :: "32 word"
  assumes "0 \<le> x" and "0 \<le> y" and "x < uint w" and "y < uint h"
    and "unat w * unat h < 2 ^ 32"
  shows "unat (word_of_int x + word_of_int y * w :: 32 word) = nat (x + y * uint w)"
    and "nat (x + y * uint w) < unat w * unat h"
proof -
  have prod: "uint w * uint h = int (unat w * unat h)"
    by (simp only: uint_nat of_nat_mult)
  have "int (unat w * unat h) < int (2 ^ 32)"
    using assms(5) by (simp only: of_nat_less_iff)
  then have wh: "uint w * uint h < 2 ^ 32"
    by (simp only: prod) simp
  have "y + 1 \<le> uint h" using assms(4) by simp
  then have "(y + 1) * uint w \<le> uint h * uint w"
    by (intro mult_right_mono) simp_all
  then have le: "x + y * uint w < uint w * uint h"
    using assms(3) by (simp add: algebra_simps)
  have nonneg: "0 \<le> x + y * uint w" using assms(1,2) by simp
  have "uint (word_of_int x + word_of_int y * w :: 32 word) = (x + y * uint w) mod 2 ^ 32"
    by (simp add: uint_word_ariths uint_word_of_int mod_simps)
  also have "\<dots> = x + y * uint w"
    using nonneg le wh by simp
  finally have u: "uint (word_of_int x + word_of_int y * w :: 32 word) = x + y * uint w" .
  show "unat (word_of_int x + word_of_int y * w :: 32 word) = nat (x + y * uint w)"
    by (simp only: unat_eq_nat_uint u)
  have "x + y * uint w < int (unat w * unat h)" using le by (simp only: prod)
  then show "nat (x + y * uint w) < unat w * unat h" using nonneg by linarith
qed

text \<open>
  The order matters as well. On a costmap of 20 m and 200 cells with origin -10, the point
  1.5 has the quotient 0.575, which is not a double: dividing before multiplying, as the
  source and the specification do, gives the cell 114, and multiplying first gives 115.
\<close>

lemma quotient_23_40: "round_double (23 / 40) = 2589569785738035 / 2 ^ 52"
proof -
  have "round_double (23 / 40)
      = of_int (round_half_even ((23 / 40) / 2 powi (- 1 - 52))) * 2 powi (- 1 - 52)"
    by (rule round_double_binade) (simp_all add: power_int_minus)
  also have "\<dots> = 2589569785738035 / 2 ^ 52"
    by (simp add: round_half_even_def power_int_minus)
  finally show ?thesis .
qed

lemma product_23_40_200: "round_double (2589569785738035 / 2 ^ 52 * 200) = 8092405580431359 / 2 ^ 46"
proof -
  have "round_double (2589569785738035 / 2 ^ 52 * 200)
      = of_int (round_half_even ((2589569785738035 / 2 ^ 52 * 200) / 2 powi (6 - 52))) * 2 powi (6 - 52)"
    by (rule round_double_binade) (simp_all add: power_int_minus)
  also have "\<dots> = 8092405580431359 / 2 ^ 46"
    by (simp add: round_half_even_def power_int_minus)
  finally show ?thesis .
qed

lemma difference_half: "round_double (8092405580431359 / 2 ^ 46 - 1 / 2) = 8057221208342527 / 2 ^ 46"
  using round_double_exact [of 8057221208342527 "- 46"] by (simp add: power_int_minus)

lemma order_of_operations:
  "spec_cell (3 / 2) (- 10) 20 200 = Some 114"
  "map_option c_round
     (Option.bind (dsub (3 / 2) (- 10)) (\<lambda>difference.
      Option.bind (dmul difference 200) (\<lambda>product.
      Option.bind (ddiv product 20) (\<lambda>quotient.
        dsub quotient (1 / 2))))) = Some 115"
proof -
  have s1: "dsub (3 / 2) (- 10) = Some (23 / 2)"
    by (simp add: double_simps)
  have s2: "ddiv (23 / 2) 20 = Some (2589569785738035 / 2 ^ 52)"
    using quotient_23_40 by (simp add: ddiv_def to_double_def)
  have s3: "dmul (2589569785738035 / 2 ^ 52) 200 = Some (8092405580431359 / 2 ^ 46)"
    using product_23_40_200 by (simp add: dmul_def to_double_def)
  have s4: "dsub (8092405580431359 / 2 ^ 46) (1 / 2) = Some (8057221208342527 / 2 ^ 46)"
    using difference_half by (simp add: dsub_def to_double_def)
  have "spec_cell (3 / 2) (- 10) 20 200 = Some (c_round (8057221208342527 / 2 ^ 46))"
    by (simp only: spec_cell_def s1 s2 s3 s4 bind.simps option.map)
  then show "spec_cell (3 / 2) (- 10) 20 200 = Some 114"
    by (simp add: c_round_def)
  show "map_option c_round
     (Option.bind (dsub (3 / 2) (- 10)) (\<lambda>difference.
      Option.bind (dmul difference 200) (\<lambda>product.
      Option.bind (ddiv product 20) (\<lambda>quotient.
        dsub quotient (1 / 2))))) = Some 115"
    by (simp add: double_simps c_round_def)
qed

text \<open>
  Claim C6. Where the expression of the specification, evaluated on doubles in the order
  written, has a finite value for each coordinate and the rounded values fit the 32-bit
  \<^verbatim>\<open>int\<close> they are assigned to, the coordinates computed for a point \<open>(x, y)\<close> of the robot
  base frame are those of the specification, in the scan loop and in the plan loop alike.
  A sample in the valid range whose point is invalid leaves the costmap as it is, and one
  whose point is valid stores 100 at \<^verbatim>\<open>x + y*width\<close>; a pose whose point is invalid adds
  nothing to the list of coordinates, and one whose point is valid adds its cell.
\<close>

theorem world_to_cell_mapping:
  assumes cx: "spec_cellX cm g x = Some cellX" and cy: "spec_cellY cm g y = Some cellY"
    and x_lo: "- (2 ^ 31) \<le> cellX" and x_hi: "cellX < 2 ^ 31"
    and y_lo: "- (2 ^ 31) \<le> cellY" and y_hi: "cellY < 2 ^ 31"
  shows "scan_costmap_coordinates cm g x y = Inr (cellX, cellY)
     \<and> plan_costmap_coordinates cm g (x, y) = Inr (cellX, cellY)
     \<and> (r > range_min ls \<and> r < range_max ls \<and> scan_point_robot_base_frame t ls i r = (x, y) \<longrightarrow>
          add_laser_scan_points cm t ls i (r # rs) g =
            (if spec_invalid g cellX cellY
             then add_laser_scan_points cm t ls (Suc i) rs g
             else case vector_store (data g)
                         (unat (word_of_int cellX + word_of_int cellY * info_width g :: 32 word)) 100 of
                    Inl e \<Rightarrow> Inl e
                  | Inr d \<Rightarrow> add_laser_scan_points cm t ls (Suc i) rs (g\<lparr>data := d\<rparr>)))
     \<and> (costmap env = cm
          \<and> transformPose (tf env) (header_frame_id g) (p\<lparr>pose_stamp := header_stamp g\<rparr>) = Some (x, y) \<longrightarrow>
          plan_map_coordinates env g prb (p # ps) acc =
            plan_map_coordinates env g (x, y) ps
              (if spec_invalid g cellX cellY then acc else acc @ [(cellX, cellY)]))
     \<and> (\<not> spec_invalid g cellX cellY
          \<and> length (data g) = unat (info_width g) * unat (info_height g)
          \<and> unat (info_width g) * unat (info_height g) < 2 ^ 32 \<longrightarrow>
          vector_store (data g)
             (unat (word_of_int cellX + word_of_int cellY * info_width g :: 32 word)) 100
            = Inr ((data g)[nat (cellX + cellY * uint (info_width g)) := 100]))"
proof -
  have scan: "scan_costmap_coordinates cm g x y = Inr (cellX, cellY)"
    using assms by (rule scan_costmap_coordinates_spec)
  have plan: "plan_costmap_coordinates cm g (x, y) = Inr (cellX, cellY)"
    using assms by (rule plan_costmap_coordinates_spec)
  have scan_step: "add_laser_scan_points cm t ls i (r # rs) g =
            (if spec_invalid g cellX cellY
             then add_laser_scan_points cm t ls (Suc i) rs g
             else case vector_store (data g)
                         (unat (word_of_int cellX + word_of_int cellY * info_width g :: 32 word)) 100 of
                    Inl e \<Rightarrow> Inl e
                  | Inr d \<Rightarrow> add_laser_scan_points cm t ls (Suc i) rs (g\<lparr>data := d\<rparr>))"
    if "r > range_min ls \<and> r < range_max ls \<and> scan_point_robot_base_frame t ls i r = (x, y)"
  proof -
    from that have "scan_point_cell cm g t ls i r = Inr (cellX, cellY)"
      by (simp add: scan_point_cell_def scan)
    with that show ?thesis
      by (simp add: bounds_check_spec)
  qed
  have plan_step: "plan_map_coordinates env g prb (p # ps) acc =
            plan_map_coordinates env g (x, y) ps
              (if spec_invalid g cellX cellY then acc else acc @ [(cellX, cellY)])"
    if "costmap env = cm
          \<and> transformPose (tf env) (header_frame_id g) (p\<lparr>pose_stamp := header_stamp g\<rparr>) = Some (x, y)"
    using that by (simp add: plan bounds_check_spec)
  have store: "vector_store (data g)
             (unat (word_of_int cellX + word_of_int cellY * info_width g :: 32 word)) 100
            = Inr ((data g)[nat (cellX + cellY * uint (info_width g)) := 100])"
    if "\<not> spec_invalid g cellX cellY
          \<and> length (data g) = unat (info_width g) * unat (info_height g)
          \<and> unat (info_width g) * unat (info_height g) < 2 ^ 32"
  proof -
    from that have b: "0 \<le> cellX" "0 \<le> cellY" "cellX < uint (info_width g)"
      "cellY < uint (info_height g)"
      by (simp_all add: spec_invalid_def)
    from that have fits: "unat (info_width g) * unat (info_height g) < 2 ^ 32" by simp
    from cell_index_no_wrap [OF b fits] that show ?thesis
      by (simp add: vector_store_def)
  qed
  from scan plan scan_step plan_step store show ?thesis by blast
qed

theorem world_to_cell_mapping_witness:
  "spec_cellX bench_costmap bench_grid 1 = Some 60
   \<and> spec_cellY bench_costmap bench_grid 0 = Some 40
   \<and> - (2 ^ 31) \<le> (60 :: int) \<and> (60 :: int) < 2 ^ 31
   \<and> - (2 ^ 31) \<le> (40 :: int) \<and> (40 :: int) < 2 ^ 31
   \<and> 1 > range_min (single_sample 1) \<and> 1 < range_max (single_sample 1)
   \<and> scan_point_robot_base_frame identity_transform (single_sample 1) 0 1 = (1, 0)
   \<and> costmap bench = bench_costmap
   \<and> transformPose (tf bench) (header_frame_id bench_grid)
        ((pose_at ''map'' 1 0)\<lparr>pose_stamp := header_stamp bench_grid\<rparr>) = Some (1, 0)
   \<and> \<not> spec_invalid bench_grid 60 40
   \<and> length (data bench_grid) = unat (info_width bench_grid) * unat (info_height bench_grid)
   \<and> unat (info_width bench_grid) * unat (info_height bench_grid) < 2 ^ 32
   \<and> scan_costmap_coordinates bench_costmap bench_grid 1 0 = Inr (60, 40)
   \<and> plan_costmap_coordinates bench_costmap bench_grid (1, 0) = Inr (60, 40)
   \<and> add_laser_scan_points bench_costmap identity_transform (single_sample 1) 0 [1] bench_grid
       = Inr (bench_grid\<lparr>data := (replicate 6400 70)[3260 := 100]\<rparr>)
   \<and> plan_map_coordinates bench bench_grid (0, 0) [pose_at ''map'' 1 0] [] = Inr [(60, 40)]"
proof -
  have cx: "spec_cellX bench_costmap bench_grid 1 = Some 60"
    and cy: "spec_cellY bench_costmap bench_grid 0 = Some 40"
    by (simp_all add: spec_cellX_def spec_cellY_def spec_cell_def bench_costmap_def bench_grid_def
        double_simps c_round_def)
  have range: "- (2 ^ 31) \<le> (60 :: int)" "(60 :: int) < 2 ^ 31"
    "- (2 ^ 31) \<le> (40 :: int)" "(40 :: int) < 2 ^ 31"
    by simp_all
  have scan_h: "1 > range_min (single_sample 1) \<and> 1 < range_max (single_sample 1)
      \<and> scan_point_robot_base_frame identity_transform (single_sample 1) 0 1 = (1, 0)"
    by (simp add: single_sample_def scan_point_robot_base_frame_def identity_transform_def)
  have plan_h: "costmap bench = bench_costmap
      \<and> transformPose (tf bench) (header_frame_id bench_grid)
           ((pose_at ''map'' 1 0)\<lparr>pose_stamp := header_stamp bench_grid\<rparr>) = Some (1, 0)"
    by (simp add: bench_def bench_listener_def pose_at_def)
  have store_h: "\<not> spec_invalid bench_grid 60 40
      \<and> length (data bench_grid) = unat (info_width bench_grid) * unat (info_height bench_grid)
      \<and> unat (info_width bench_grid) * unat (info_height bench_grid) < 2 ^ 32"
    by (simp add: spec_invalid_def bench_grid_def)
  note t = world_to_cell_mapping [OF cx cy range, where r = 1 and ls = "single_sample 1"
      and t = identity_transform and i = 0 and rs = "[]" and env = bench
      and p = "pose_at ''map'' 1 0" and prb = "(0, 0)" and ps = "[]" and acc = "[]"]
  from t have c1: "scan_costmap_coordinates bench_costmap bench_grid 1 0 = Inr (60, 40)"
    by blast
  from t have c2: "plan_costmap_coordinates bench_costmap bench_grid (1, 0) = Inr (60, 40)"
    by blast
  from t store_h have st: "vector_store (data bench_grid)
        (unat (word_of_int 60 + word_of_int 40 * info_width bench_grid :: 32 word)) 100
       = Inr ((data bench_grid)[nat (60 + 40 * uint (info_width bench_grid)) := 100])"
    by blast
  have ninv: "\<not> spec_invalid bench_grid 60 40"
    using store_h by blast
  have bg: "data bench_grid = replicate 6400 70" "info_width bench_grid = 80"
    by (simp_all add: bench_grid_def)
  from t scan_h have "add_laser_scan_points bench_costmap identity_transform (single_sample 1) 0 [1] bench_grid =
            (if spec_invalid bench_grid 60 40
             then add_laser_scan_points bench_costmap identity_transform (single_sample 1) (Suc 0) [] bench_grid
             else case vector_store (data bench_grid)
                         (unat (word_of_int 60 + word_of_int 40 * info_width bench_grid :: 32 word)) 100 of
                    Inl e \<Rightarrow> Inl e
                  | Inr d \<Rightarrow> add_laser_scan_points bench_costmap identity_transform (single_sample 1) (Suc 0) [] (bench_grid\<lparr>data := d\<rparr>))"
    by blast
  also have "\<dots> = Inr (bench_grid\<lparr>data := (data bench_grid)[nat (60 + 40 * uint (info_width bench_grid)) := 100]\<rparr>)"
    using ninv by (simp only: st if_False sum.case add_laser_scan_points.simps)
  also have "\<dots> = Inr (bench_grid\<lparr>data := (replicate 6400 70)[3260 := 100]\<rparr>)"
    by (simp add: bg)
  finally have c3: "add_laser_scan_points bench_costmap identity_transform (single_sample 1) 0 [1] bench_grid
       = Inr (bench_grid\<lparr>data := (replicate 6400 70)[3260 := 100]\<rparr>)" .
  from t plan_h have "plan_map_coordinates bench bench_grid (0, 0) [pose_at ''map'' 1 0] [] =
            plan_map_coordinates bench bench_grid (1, 0) []
              (if spec_invalid bench_grid 60 40 then [] else [] @ [(60, 40)])"
    by blast
  also have "\<dots> = Inr [(60, 40)]"
    using ninv by simp
  finally have c4: "plan_map_coordinates bench bench_grid (0, 0) [pose_at ''map'' 1 0] [] = Inr [(60, 40)]" .
  from cx cy range scan_h plan_h store_h c1 c2 c3 c4 show ?thesis by blast
qed

subsection \<open>The values along the plan\<close>

lemma c_round_nonneg: "0 \<le> v \<Longrightarrow> c_round v = \<lfloor>v + 1 / 2\<rfloor>"
  by (simp add: c_round_def)

lemma path_product_mono:
  assumes "2 \<le> N" and "j \<le> k"
  shows "round_double (round_double (real_of_int j / real_of_int (N - 1)) * 50)
      \<le> round_double (round_double (real_of_int k / real_of_int (N - 1)) * 50)"
proof -
  have pos: "0 < real_of_int (N - 1)" using assms(1) by simp
  have "real_of_int j \<le> real_of_int k" using assms(2) by simp
  then have "real_of_int j / real_of_int (N - 1) \<le> real_of_int k / real_of_int (N - 1)"
    using pos by (intro divide_right_mono) simp_all
  then have "round_double (real_of_int j / real_of_int (N - 1))
      \<le> round_double (real_of_int k / real_of_int (N - 1))"
    by (rule round_double_mono)
  then have "round_double (real_of_int j / real_of_int (N - 1)) * 50
      \<le> round_double (real_of_int k / real_of_int (N - 1)) * 50"
    by (intro mult_right_mono) simp_all
  then show ?thesis by (rule round_double_mono)
qed

lemma path_quotient_bounds:
  assumes "2 \<le> N" and "0 \<le> k" and "k \<le> N - 1"
  shows "0 \<le> round_double (real_of_int k / real_of_int (N - 1))"
    and "round_double (real_of_int k / real_of_int (N - 1)) \<le> 1"
proof -
  have pos: "0 < real_of_int (N - 1)" using assms(1) by simp
  have "0 \<le> real_of_int k / real_of_int (N - 1)" using assms(2) pos by simp
  then have "round_double 0 \<le> round_double (real_of_int k / real_of_int (N - 1))"
    by (rule round_double_mono)
  then show "0 \<le> round_double (real_of_int k / real_of_int (N - 1))"
    by (simp only: round_double_zero)
  have "real_of_int k \<le> real_of_int (N - 1)" using assms(3) by simp
  then have "real_of_int k / real_of_int (N - 1) \<le> 1"
    using pos by (simp add: divide_le_eq)
  then have "round_double (real_of_int k / real_of_int (N - 1)) \<le> round_double 1"
    by (rule round_double_mono)
  then show "round_double (real_of_int k / real_of_int (N - 1)) \<le> 1"
    by (simp only: round_double_one)
qed

lemma path_product_bounds:
  assumes "2 \<le> N" and "0 \<le> k" and "k \<le> N - 1"
  shows "0 \<le> round_double (round_double (real_of_int k / real_of_int (N - 1)) * 50)"
    and "round_double (round_double (real_of_int k / real_of_int (N - 1)) * 50) \<le> 50"
proof -
  define q where "q = round_double (real_of_int k / real_of_int (N - 1))"
  have b: "0 \<le> q" "q \<le> 1"
    unfolding q_def using assms by (rule path_quotient_bounds)+
  have "0 \<le> q * 50" using b(1) by simp
  then have "round_double 0 \<le> round_double (q * 50)" by (rule round_double_mono)
  then show "0 \<le> round_double (round_double (real_of_int k / real_of_int (N - 1)) * 50)"
    by (simp only: round_double_zero q_def)
  have "q * 50 \<le> 50" using b(2) by simp
  then have "round_double (q * 50) \<le> round_double 50" by (rule round_double_mono)
  moreover have "round_double 50 = 50" by (simp add: round_double_numeral)
  ultimately show "round_double (round_double (real_of_int k / real_of_int (N - 1)) * 50) \<le> 50"
    by (simp only: q_def)
qed

lemma spec_path_value_bounds:
  assumes "2 \<le> N" and "0 \<le> k" and "k \<le> N - 1"
  shows "0 \<le> spec_path_value k N" and "spec_path_value k N \<le> 50"
proof -
  define p where "p = round_double (round_double (real_of_int k / real_of_int (N - 1)) * 50)"
  have b: "0 \<le> p" "p \<le> 50"
    unfolding p_def using assms by (rule path_product_bounds)+
  have r: "c_round p = \<lfloor>p + 1 / 2\<rfloor>" using b(1) by (rule c_round_nonneg)
  have "p + 1 / 2 < 51" using b(2) by linarith
  then have hi: "\<lfloor>p + 1 / 2\<rfloor> < 51" by (simp add: floor_less_iff)
  have "0 \<le> p + 1 / 2" using b(1) by linarith
  then have lo: "0 \<le> \<lfloor>p + 1 / 2\<rfloor>" by (simp only: zero_le_floor)
  have "spec_path_value k N = 50 - c_round p"
    by (simp only: spec_path_value_def p_def)
  then have v: "spec_path_value k N = 50 - \<lfloor>p + 1 / 2\<rfloor>" by (simp only: r)
  show "0 \<le> spec_path_value k N" using hi v by linarith
  show "spec_path_value k N \<le> 50" using lo v by linarith
qed

lemma plan_pixel_value_spec:
  assumes "2 \<le> N" and "0 \<le> k" and "k \<le> N - 1"
  shows "plan_pixel_value k N = Inr (spec_path_value k N)"
proof -
  define q where "q = round_double (real_of_int k / real_of_int (N - 1))"
  define p where "p = round_double (q * 50)"
  note b = spec_path_value_bounds [OF assms]
  have qb: "0 \<le> q" "q \<le> 1"
    unfolding q_def using assms by (rule path_quotient_bounds)+
  have pb: "0 \<le> p" "p \<le> 50"
    unfolding p_def q_def using assms by (rule path_product_bounds)+
  have big: "(50 :: real) < 2 ^ 1024" by simp
  have "\<bar>q\<bar> < 2 ^ 1024" using qb big by linarith
  moreover have "real_of_int (N - 1) \<noteq> 0" using assms(1) by simp
  ultimately have quotient: "ddiv (real_of_int k) (real_of_int (N - 1)) = Some q"
    by (simp only: ddiv_def to_double_def q_def [symmetric] if_False if_True)
  have "\<bar>p\<bar> < 2 ^ 1024" using pb big by linarith
  then have product: "dmul q 50 = Some p"
    by (simp only: dmul_def to_double_def p_def [symmetric] if_True)
  have "plan_pixel_value k N = to_int8 (50 - c_round p)"
    by (simp only: plan_pixel_value_def quotient product bind.simps option.case)
  also have "50 - c_round p = spec_path_value k N"
    by (simp only: spec_path_value_def p_def q_def)
  also have "to_int8 (spec_path_value k N) = Inr (spec_path_value k N)"
    using b by (simp add: to_int8_def)
  finally show ?thesis .
qed

lemma spec_path_value_antimono:
  assumes "2 \<le> N" and "0 \<le> j" and "j \<le> k"
  shows "spec_path_value k N \<le> spec_path_value j N"
proof -
  define pj where "pj = round_double (round_double (real_of_int j / real_of_int (N - 1)) * 50)"
  define pk where "pk = round_double (round_double (real_of_int k / real_of_int (N - 1)) * 50)"
  have le: "pj \<le> pk"
    unfolding pj_def pk_def using assms(1,3) by (rule path_product_mono)
  have "round_double (round_double (real_of_int 0 / real_of_int (N - 1)) * 50) \<le> pj"
    unfolding pj_def using assms(1,2) by (rule path_product_mono)
  then have j0: "0 \<le> pj" by (simp add: round_double_zero)
  then have k0: "0 \<le> pk" using le by linarith
  have "pj + 1 / 2 \<le> pk + 1 / 2" using le by linarith
  then have "\<lfloor>pj + 1 / 2\<rfloor> \<le> \<lfloor>pk + 1 / 2\<rfloor>" by (rule floor_mono)
  then have "c_round pj \<le> c_round pk"
    by (simp only: c_round_nonneg [OF j0] c_round_nonneg [OF k0])
  moreover have "spec_path_value j N = 50 - c_round pj" "spec_path_value k N = 50 - c_round pk"
    by (simp_all only: spec_path_value_def pj_def pk_def)
  ultimately show ?thesis by linarith
qed

text \<open>
  The rounding of the quotient shows in the values: for the point 29 of 101 the product
  is a double just below 14.5, so the value is 36, where exact arithmetic gives 35.
\<close>

lemma round_double_29_hundredths: "round_double (29 / 100) = 5224175567749775 / 2 ^ 54"
proof -
  have "round_double (29 / 100)
      = of_int (round_half_even ((29 / 100) / 2 powi (- 2 - 52))) * 2 powi (- 2 - 52)"
    by (rule round_double_binade) (simp_all add: power_int_minus)
  also have "\<dots> = 5224175567749775 / 2 ^ 54"
    by (simp add: round_half_even_def power_int_minus)
  finally show ?thesis .
qed

lemma round_double_29_halves: "round_double (5224175567749775 / 2 ^ 54 * 50) = 8162774324609023 / 2 ^ 49"
proof -
  have "round_double (5224175567749775 / 2 ^ 54 * 50)
      = of_int (round_half_even ((5224175567749775 / 2 ^ 54 * 50) / 2 powi (3 - 52))) * 2 powi (3 - 52)"
    by (rule round_double_binade) (simp_all add: power_int_minus)
  also have "\<dots> = 8162774324609023 / 2 ^ 49"
    by (simp add: round_half_even_def power_int_minus)
  finally show ?thesis .
qed

lemma value_of_point_29_of_101:
  "spec_path_value 29 101 = 36"
  "plan_pixel_value 29 101 = Inr 36"
  "50 - c_round (29 / 100 * 50) = 35"
proof -
  have r: "round_double (130604389193744375 / 9007199254740992)
      = 8162774324609023 / 562949953421312"
    using round_double_29_halves by simp
  show v: "spec_path_value 29 101 = 36"
    by (simp add: spec_path_value_def round_double_29_hundredths r c_round_def)
  have "plan_pixel_value 29 101 = Inr (spec_path_value 29 101)"
    by (rule plan_pixel_value_spec) simp_all
  then show "plan_pixel_value 29 101 = Inr 36" by (simp only: v)
  show "50 - c_round (29 / 100 * 50) = 35" by (simp add: c_round_def)
qed

lemma plan_pixel_index_data [simp]:
  "plan_pixel_index (g\<lparr>data := d\<rparr>) c = plan_pixel_index g c"
  by (simp add: plan_pixel_index_def)

lemma add_plan_pixels_last_write:
  assumes "2 \<le> N" and "0 \<le> c" and "c + int (length cs) \<le> N"
    and "\<forall>xy \<in> set cs. plan_pixel_index g xy < length (data g)"
  shows "\<exists>g'. add_plan_pixels N c cs g = Inr g'
     \<and> info_width g' = info_width g \<and> info_height g' = info_height g
     \<and> length (data g') = length (data g)
     \<and> (\<forall>k < length cs.
           (\<forall>j. k < j \<and> j < length cs \<longrightarrow>
                 plan_pixel_index g (cs ! j) \<noteq> plan_pixel_index g (cs ! k)) \<longrightarrow>
           data g' ! plan_pixel_index g (cs ! k) = spec_path_value (c + int k) N)
     \<and> (\<forall>n. n \<notin> plan_pixel_index g ` set cs \<longrightarrow> data g' ! n = data g ! n)"
  using assms
proof (induction cs arbitrary: c g)
  case Nil
  then show ?case by simp
next
  case (Cons xy cs)
  let ?i = "plan_pixel_index g xy"
  let ?v = "spec_path_value c N"
  let ?g1 = "g\<lparr>data := (data g)[?i := ?v]\<rparr>"
  have c_hi: "c \<le> N - 1" using Cons.prems(3) by simp
  have val: "plan_pixel_value c N = Inr ?v"
    using Cons.prems(1,2) c_hi by (rule plan_pixel_value_spec)
  have i_ok: "?i < length (data g)" using Cons.prems(4) by simp
  have step: "add_plan_pixels N c (xy # cs) g = add_plan_pixels N (c + 1) cs ?g1"
    using i_ok by (simp add: val vector_store_def)
  have "\<forall>xy \<in> set cs. plan_pixel_index ?g1 xy < length (data ?g1)"
    using Cons.prems(4) by simp
  moreover have "0 \<le> c + 1" using Cons.prems(2) by simp
  moreover have "c + 1 + int (length cs) \<le> N" using Cons.prems(3) by simp
  ultimately obtain g' where run: "add_plan_pixels N (c + 1) cs ?g1 = Inr g'"
    and w: "info_width g' = info_width ?g1" and h: "info_height g' = info_height ?g1"
    and len: "length (data g') = length (data ?g1)"
    and last: "\<forall>k < length cs.
           (\<forall>j. k < j \<and> j < length cs \<longrightarrow>
                 plan_pixel_index ?g1 (cs ! j) \<noteq> plan_pixel_index ?g1 (cs ! k)) \<longrightarrow>
           data g' ! plan_pixel_index ?g1 (cs ! k) = spec_path_value (c + 1 + int k) N"
    and rest: "\<forall>n. n \<notin> plan_pixel_index ?g1 ` set cs \<longrightarrow> data g' ! n = data ?g1 ! n"
    using Cons.IH [OF Cons.prems(1), of "c + 1" ?g1] by blast
  have goal_last: "data g' ! plan_pixel_index g ((xy # cs) ! k) = spec_path_value (c + int k) N"
    if k: "k < length (xy # cs)"
      and later: "\<forall>j. k < j \<and> j < length (xy # cs) \<longrightarrow>
                 plan_pixel_index g ((xy # cs) ! j) \<noteq> plan_pixel_index g ((xy # cs) ! k)"
    for k
  proof (cases k)
    case 0
    have "?i \<notin> plan_pixel_index g ` set cs"
    proof
      assume "?i \<in> plan_pixel_index g ` set cs"
      then obtain j where j: "j < length cs" and eq: "plan_pixel_index g (cs ! j) = ?i"
        by (auto simp: in_set_conv_nth)
      from later [rule_format, of "Suc j"] j 0 eq show False by simp
    qed
    then have "data g' ! ?i = data ?g1 ! ?i" using rest by simp
    also have "\<dots> = ?v" using i_ok by simp
    finally show ?thesis using 0 by simp
  next
    case (Suc k')
    from k Suc have k': "k' < length cs" by simp
    have "\<forall>j. k' < j \<and> j < length cs \<longrightarrow>
            plan_pixel_index ?g1 (cs ! j) \<noteq> plan_pixel_index ?g1 (cs ! k')"
    proof (intro allI impI)
      fix j assume "k' < j \<and> j < length cs"
      with later [rule_format, of "Suc j"] Suc
      show "plan_pixel_index ?g1 (cs ! j) \<noteq> plan_pixel_index ?g1 (cs ! k')" by simp
    qed
    with last k' have "data g' ! plan_pixel_index ?g1 (cs ! k') = spec_path_value (c + 1 + int k') N"
      by blast
    then show ?thesis using Suc by (simp add: add.assoc)
  qed
  have goal_rest: "data g' ! n = data g ! n" if "n \<notin> plan_pixel_index g ` set (xy # cs)" for n
  proof -
    from that have "n \<noteq> ?i" and "n \<notin> plan_pixel_index ?g1 ` set cs" by auto
    with rest show ?thesis by simp
  qed
  from step run w h len goal_last goal_rest show ?case by auto
qed

lemma plan_pixel_index_bound:
  assumes "\<not> spec_invalid g (fst c) (snd c)"
  shows "plan_pixel_index g c < unat (info_width g) * unat (info_height g)"
proof -
  let ?w = "uint (info_width g)" and ?h = "uint (info_height g)"
  from assms have b: "0 \<le> fst c" "0 \<le> snd c" "fst c < ?w" "snd c < ?h"
    by (simp_all add: spec_invalid_def)
  have prod: "?w * ?h = int (unat (info_width g) * unat (info_height g))"
    by (simp only: uint_nat of_nat_mult)
  have "snd c + 1 \<le> ?h" using b(4) by simp
  then have "(snd c + 1) * ?w \<le> ?h * ?w"
    by (intro mult_right_mono) simp_all
  then have "fst c + snd c * ?w < ?w * ?h"
    using b(3) by (simp add: algebra_simps)
  then have "fst c + snd c * ?w < int (unat (info_width g) * unat (info_height g))"
    by (simp only: prod)
  moreover have "0 \<le> fst c + snd c * ?w" using b(1,2) by simp
  ultimately show ?thesis unfolding plan_pixel_index_def by linarith
qed

lemma plan_pixel_index_inj:
  assumes "\<not> spec_invalid g (fst c) (snd c)" and "\<not> spec_invalid g (fst c') (snd c')"
    and "plan_pixel_index g c = plan_pixel_index g c'"
  shows "c = c'"
proof -
  let ?w = "uint (info_width g)"
  from assms(1) have b: "0 \<le> fst c" "0 \<le> snd c" "fst c < ?w"
    by (simp_all add: spec_invalid_def)
  from assms(2) have b': "0 \<le> fst c'" "0 \<le> snd c'" "fst c' < ?w"
    by (simp_all add: spec_invalid_def)
  have "0 \<le> fst c + snd c * ?w" "0 \<le> fst c' + snd c' * ?w"
    using b b' by simp_all
  with assms(3) have eq: "fst c + snd c * ?w = fst c' + snd c' * ?w"
    unfolding plan_pixel_index_def by linarith
  have w: "?w \<noteq> 0" using b(1,3) by linarith
  have "(fst c + snd c * ?w) mod ?w = fst c" using b by simp
  moreover have "(fst c' + snd c' * ?w) mod ?w = fst c'" using b' by simp
  ultimately have x: "fst c = fst c'" using eq by simp
  have "(fst c + snd c * ?w) div ?w = snd c" using b w by simp
  moreover have "(fst c' + snd c' * ?w) div ?w = snd c'" using b' w by simp
  ultimately have "snd c = snd c'" using eq by simp
  with x show ?thesis by (simp add: prod_eq_iff)
qed

lemma cell_value_index:
  assumes "\<not> spec_invalid g (fst c) (snd c)"
    and "info_width g' = info_width g" and "info_height g' = info_height g"
    and "length (data g') = unat (info_width g) * unat (info_height g)"
  shows "cell_value g' (fst c) (snd c) = Some (data g' ! plan_pixel_index g c)"
proof -
  from assms(1) have b: "0 \<le> fst c" "0 \<le> snd c" "fst c < uint (info_width g)"
    "snd c < uint (info_height g)"
    by (simp_all add: spec_invalid_def)
  have same: "plan_pixel_index g' c = plan_pixel_index g c"
    by (simp add: plan_pixel_index_def assms(2))
  from plan_pixel_index_bound [OF assms(1)] b same show ?thesis
    by (simp add: cell_value_def assms(2,3,4))
qed

lemma add_plan_pixels_last_cell:
  assumes len: "length (data g) = unat (info_width g) * unat (info_height g)"
    and n: "2 \<le> length cs"
    and valid: "list_all (\<lambda>c. \<not> spec_invalid g (fst c) (snd c)) cs"
    and k: "k < length cs"
    and last: "cs ! k \<notin> set (drop (Suc k) cs)"
  shows "rasterized_cell (add_plan_pixels (int (length cs)) 0 cs g) (cs ! k)
           = Some (spec_path_value (int k) (int (length cs)))"
proof -
  have v: "\<not> spec_invalid g (fst c) (snd c)" if "c \<in> set cs" for c
    using valid that by (simp add: list_all_iff)
  have in_range: "\<forall>xy \<in> set cs. plan_pixel_index g xy < length (data g)"
    using v plan_pixel_index_bound len by simp
  have "2 \<le> int (length cs)" using n by simp
  moreover have "(0 :: int) \<le> 0" by simp
  moreover have "0 + int (length cs) \<le> int (length cs)" by simp
  ultimately obtain g' where run: "add_plan_pixels (int (length cs)) 0 cs g = Inr g'"
    and w: "info_width g' = info_width g" and h: "info_height g' = info_height g"
    and l: "length (data g') = length (data g)"
    and written: "\<forall>k < length cs.
           (\<forall>j. k < j \<and> j < length cs \<longrightarrow>
                 plan_pixel_index g (cs ! j) \<noteq> plan_pixel_index g (cs ! k)) \<longrightarrow>
           data g' ! plan_pixel_index g (cs ! k) = spec_path_value (0 + int k) (int (length cs))"
    using add_plan_pixels_last_write [OF _ _ _ in_range, of "int (length cs)" 0] by blast
  have "plan_pixel_index g (cs ! j) \<noteq> plan_pixel_index g (cs ! k)"
    if j: "k < j \<and> j < length cs" for j
  proof
    assume eq: "plan_pixel_index g (cs ! j) = plan_pixel_index g (cs ! k)"
    have "cs ! j \<in> set cs" "cs ! k \<in> set cs" using j k by simp_all
    then have "cs ! j = cs ! k" using eq v plan_pixel_index_inj by blast
    moreover have "cs ! j = drop (Suc k) cs ! (j - Suc k)" using j by simp
    moreover have "j - Suc k < length (drop (Suc k) cs)" using j by (simp add: less_diff_conv2) arith
    ultimately have "cs ! k \<in> set (drop (Suc k) cs)"
      by (metis nth_mem)
    with last show False by simp
  qed
  with written k have "data g' ! plan_pixel_index g (cs ! k) = spec_path_value (int k) (int (length cs))"
    by simp
  moreover have "cell_value g' (fst (cs ! k)) (snd (cs ! k)) = Some (data g' ! plan_pixel_index g (cs ! k))"
    using v k w h l len by (intro cell_value_index) simp_all
  ultimately show ?thesis by (simp add: rasterized_cell_def run)
qed

lemma three_path_values:
  "spec_path_value 0 3 = 50" "spec_path_value 1 3 = 25" "spec_path_value 2 3 = 0"
  by (simp_all add: spec_path_value_def c_round_def exact_doubles)

text \<open>
  Claim C7. On a costmap whose buffer has \<open>width*height\<close> cells, three valid points at
  distinct cells are written with exactly 50, 25 and 0 in the order of the path. For any
  list of at least two valid points, the cell of a point that no later point of the list
  maps to ends with the value \<open>50 - round(k / (N-1) * 50)\<close> of that point, the \<open>k\<close>-th of
  \<open>N\<close>, computed on doubles as line 457 does: the later write wins, and its value is not
  larger than the value of any earlier point.
\<close>

theorem path_gradient_values:
  assumes len: "length (data g) = unat (info_width g) * unat (info_height g)"
  shows "(list_all (\<lambda>c. \<not> spec_invalid g (fst c) (snd c)) [c0, c1, c2] \<and> distinct [c0, c1, c2] \<longrightarrow>
            add_plan_pixels 3 0 [c0, c1, c2] g
              = Inr (g\<lparr>data := (data g)[plan_pixel_index g c0 := 50, plan_pixel_index g c1 := 25,
                                          plan_pixel_index g c2 := 0]\<rparr>)
            \<and> rasterized_cell (add_plan_pixels 3 0 [c0, c1, c2] g) c0 = Some 50
            \<and> rasterized_cell (add_plan_pixels 3 0 [c0, c1, c2] g) c1 = Some 25
            \<and> rasterized_cell (add_plan_pixels 3 0 [c0, c1, c2] g) c2 = Some 0)
     \<and> (2 \<le> length cs \<and> list_all (\<lambda>c. \<not> spec_invalid g (fst c) (snd c)) cs
          \<and> k < length cs \<and> cs ! k \<notin> set (drop (Suc k) cs) \<and> j \<le> k \<longrightarrow>
            rasterized_cell (add_plan_pixels (int (length cs)) 0 cs g) (cs ! k)
              = Some (spec_path_value (int k) (int (length cs)))
            \<and> spec_path_value (int k) (int (length cs)) \<le> spec_path_value (int j) (int (length cs)))"
proof -
  have three: "add_plan_pixels 3 0 [c0, c1, c2] g
              = Inr (g\<lparr>data := (data g)[plan_pixel_index g c0 := 50, plan_pixel_index g c1 := 25,
                                          plan_pixel_index g c2 := 0]\<rparr>)
            \<and> rasterized_cell (add_plan_pixels 3 0 [c0, c1, c2] g) c0 = Some 50
            \<and> rasterized_cell (add_plan_pixels 3 0 [c0, c1, c2] g) c1 = Some 25
            \<and> rasterized_cell (add_plan_pixels 3 0 [c0, c1, c2] g) c2 = Some 0"
    if h: "list_all (\<lambda>c. \<not> spec_invalid g (fst c) (snd c)) [c0, c1, c2] \<and> distinct [c0, c1, c2]"
  proof -
    let ?cs = "[c0, c1, c2]"
    from h have valid: "list_all (\<lambda>c. \<not> spec_invalid g (fst c) (snd c)) ?cs" by blast
    from h have v: "\<not> spec_invalid g (fst c0) (snd c0)" "\<not> spec_invalid g (fst c1) (snd c1)"
      "\<not> spec_invalid g (fst c2) (snd c2)" by simp_all
    have n: "2 \<le> length ?cs" by simp
    have i: "plan_pixel_index g c0 < length (data g)" "plan_pixel_index g c1 < length (data g)"
      "plan_pixel_index g c2 < length (data g)"
      using v plan_pixel_index_bound len by simp_all
    have vals: "plan_pixel_value 0 3 = Inr 50" "plan_pixel_value 1 3 = Inr 25"
      "plan_pixel_value 2 3 = Inr 0"
      by (simp_all add: plan_pixel_value_def double_simps to_int8_def c_round_def)
    have run: "add_plan_pixels 3 0 ?cs g
              = Inr (g\<lparr>data := (data g)[plan_pixel_index g c0 := 50, plan_pixel_index g c1 := 25,
                                          plan_pixel_index g c2 := 0]\<rparr>)"
      using i by (simp add: vals vector_store_def)
    have "rasterized_cell (add_plan_pixels (int (length ?cs)) 0 ?cs g) (?cs ! 0)
           = Some (spec_path_value (int 0) (int (length ?cs)))"
      using len n valid h by (intro add_plan_pixels_last_cell) simp_all
    then have r0: "rasterized_cell (add_plan_pixels 3 0 ?cs g) c0 = Some 50"
      by (simp add: three_path_values)
    have "rasterized_cell (add_plan_pixels (int (length ?cs)) 0 ?cs g) (?cs ! 1)
           = Some (spec_path_value (int 1) (int (length ?cs)))"
      using len n valid h by (intro add_plan_pixels_last_cell) simp_all
    then have r1: "rasterized_cell (add_plan_pixels 3 0 ?cs g) c1 = Some 25"
      by (simp add: three_path_values)
    have "rasterized_cell (add_plan_pixels (int (length ?cs)) 0 ?cs g) (?cs ! 2)
           = Some (spec_path_value (int 2) (int (length ?cs)))"
      using len n valid h by (intro add_plan_pixels_last_cell) simp_all
    then have r2: "rasterized_cell (add_plan_pixels 3 0 ?cs g) c2 = Some 0"
      by (simp add: three_path_values)
    from run r0 r1 r2 show ?thesis by blast
  qed
  have general: "rasterized_cell (add_plan_pixels (int (length cs)) 0 cs g) (cs ! k)
              = Some (spec_path_value (int k) (int (length cs)))
            \<and> spec_path_value (int k) (int (length cs)) \<le> spec_path_value (int j) (int (length cs))"
    if h: "2 \<le> length cs \<and> list_all (\<lambda>c. \<not> spec_invalid g (fst c) (snd c)) cs
          \<and> k < length cs \<and> cs ! k \<notin> set (drop (Suc k) cs) \<and> j \<le> k"
  proof -
    from h have "rasterized_cell (add_plan_pixels (int (length cs)) 0 cs g) (cs ! k)
              = Some (spec_path_value (int k) (int (length cs)))"
      using len by (intro add_plan_pixels_last_cell) simp_all
    moreover from h have "spec_path_value (int k) (int (length cs)) \<le> spec_path_value (int j) (int (length cs))"
      by (intro spec_path_value_antimono) simp_all
    ultimately show ?thesis by blast
  qed
  from three general show ?thesis by blast
qed

theorem path_gradient_values_witness:
  "length (data bench_grid) = unat (info_width bench_grid) * unat (info_height bench_grid)
   \<and> list_all (\<lambda>c. \<not> spec_invalid bench_grid (fst c) (snd c)) [(40, 40), (60, 40), (60, 60)]
   \<and> distinct [(40, 40), (60, 40), (60, 60) :: int \<times> int]
   \<and> 2 \<le> length [(40, 40), (60, 40), (40, 40) :: int \<times> int]
   \<and> list_all (\<lambda>c. \<not> spec_invalid bench_grid (fst c) (snd c)) [(40, 40), (60, 40), (40, 40)]
   \<and> 2 < length [(40, 40), (60, 40), (40, 40) :: int \<times> int]
   \<and> [(40, 40), (60, 40), (40, 40) :: int \<times> int] ! 2
        \<notin> set (drop (Suc 2) [(40, 40), (60, 40), (40, 40)])
   \<and> (0 :: nat) \<le> 2
   \<and> add_plan_pixels 3 0 [(40, 40), (60, 40), (60, 60)] bench_grid
       = Inr (bench_grid\<lparr>data := (replicate 6400 70)[3240 := 50, 3260 := 25, 4860 := 0]\<rparr>)
   \<and> rasterized_cell (add_plan_pixels 3 0 [(40, 40), (60, 40), (60, 60)] bench_grid) (40, 40) = Some 50
   \<and> rasterized_cell (add_plan_pixels 3 0 [(40, 40), (60, 40), (60, 60)] bench_grid) (60, 40) = Some 25
   \<and> rasterized_cell (add_plan_pixels 3 0 [(40, 40), (60, 40), (60, 60)] bench_grid) (60, 60) = Some 0
   \<and> rasterized_cell (add_plan_pixels 3 0 [(40, 40), (60, 40), (40, 40)] bench_grid) (40, 40) = Some 0
   \<and> spec_path_value 2 3 \<le> spec_path_value 0 3"
proof -
  let ?distinct = "[(40, 40), (60, 40), (60, 60) :: int \<times> int]"
  let ?twice = "[(40, 40), (60, 40), (40, 40) :: int \<times> int]"
  have len: "length (data bench_grid) = unat (info_width bench_grid) * unat (info_height bench_grid)"
    by (simp add: bench_grid_def)
  have h1: "list_all (\<lambda>c. \<not> spec_invalid bench_grid (fst c) (snd c)) ?distinct \<and> distinct ?distinct"
    by (simp add: spec_invalid_def bench_grid_def)
  have h2: "2 \<le> length ?twice
      \<and> list_all (\<lambda>c. \<not> spec_invalid bench_grid (fst c) (snd c)) ?twice
      \<and> 2 < length ?twice \<and> ?twice ! 2 \<notin> set (drop (Suc 2) ?twice) \<and> (0 :: nat) \<le> 2"
    by (simp add: spec_invalid_def bench_grid_def)
  note t = path_gradient_values [OF len, where ?c0.0 = "(40, 40)" and ?c1.0 = "(60, 40)"
      and ?c2.0 = "(60, 60)" and cs = ?twice and k = 2 and j = 0]
  have idx: "plan_pixel_index bench_grid (40, 40) = 3240"
    "plan_pixel_index bench_grid (60, 40) = 3260" "plan_pixel_index bench_grid (60, 60) = 4860"
    by (simp_all add: plan_pixel_index_def bench_grid_def)
  have d: "data bench_grid = replicate 6400 70" by (simp add: bench_grid_def)
  from t h1 have a: "add_plan_pixels 3 0 ?distinct bench_grid
              = Inr (bench_grid\<lparr>data := (data bench_grid)[plan_pixel_index bench_grid (40, 40) := 50,
                        plan_pixel_index bench_grid (60, 40) := 25,
                        plan_pixel_index bench_grid (60, 60) := 0]\<rparr>)"
    and r0: "rasterized_cell (add_plan_pixels 3 0 ?distinct bench_grid) (40, 40) = Some 50"
    and r1: "rasterized_cell (add_plan_pixels 3 0 ?distinct bench_grid) (60, 40) = Some 25"
    and r2: "rasterized_cell (add_plan_pixels 3 0 ?distinct bench_grid) (60, 60) = Some 0"
    by blast+
  from a have a': "add_plan_pixels 3 0 ?distinct bench_grid
       = Inr (bench_grid\<lparr>data := (replicate 6400 70)[3240 := 50, 3260 := 25, 4860 := 0]\<rparr>)"
    by (simp only: idx d)
  from t h2 have "rasterized_cell (add_plan_pixels (int (length ?twice)) 0 ?twice bench_grid) (?twice ! 2)
              = Some (spec_path_value (int 2) (int (length ?twice)))"
    and "spec_path_value (int 2) (int (length ?twice)) \<le> spec_path_value (int 0) (int (length ?twice))"
    by blast+
  then have l: "rasterized_cell (add_plan_pixels 3 0 ?twice bench_grid) (40, 40) = Some 0"
    and m: "spec_path_value 2 3 \<le> spec_path_value 0 3"
    by (simp_all add: three_path_values)
  from len h1 h2 a' r0 r1 r2 l m show ?thesis by blast
qed

end
